theory Spec2Isabelle
  imports Main "HOL-Library.Word"
begin

unbundle bit_operations_syntax

section \<open>Bytes and Go slices\<close>

type_synonym byte = "8 word"
type_synonym uint16 = "16 word"

text \<open>
  A Go \<^verbatim>\<open>[]byte\<close> is either \<^verbatim>\<open>nil\<close> or a sequence of bytes: \<open>None\<close> is the
  nil slice, \<open>Some xs\<close> a non-nil slice with elements \<open>xs\<close>.  \<^verbatim>\<open>len(nil)\<close> is 0.
\<close>

type_synonym slice = "byte list option"

definition len :: "slice \<Rightarrow> nat" where
  "len s = (case s of None \<Rightarrow> 0 | Some xs \<Rightarrow> length xs)"

definition elems :: "slice \<Rightarrow> byte list" where
  "elems s = (case s of None \<Rightarrow> [] | Some xs \<Rightarrow> xs)"

text \<open>
  The builtin \<^verbatim>\<open>copy(dst[off:], src)\<close> on a buffer \<open>dst\<close>: it copies
  \<open>min (len dst - off) (len src)\<close> bytes and leaves the rest of \<open>dst\<close> as it was.
\<close>

definition copy :: "byte list \<Rightarrow> nat \<Rightarrow> byte list \<Rightarrow> byte list" where
  "copy dst off src =
     (let n = min (length dst - off) (length src)
      in take off dst @ take n src @ drop (off + n) dst)"

section \<open>CRC-16 (package crc16, parameters CRC16\_CCITT\_FALSE)\<close>

text \<open>
  The table-driven CRC of the crc16 package the transport imports, for the parameter set
  \<^verbatim>\<open>CRC16_CCITT_FALSE\<close>: polynomial 0x1021, initial value 0xFFFF, no reflection of
  input or output, final xor 0.  \<open>MakeTable\<close> fills entry \<open>n\<close> by eight shift steps
  of \<open>n << 8\<close>; \<open>Update\<close> consumes one byte per table lookup.
\<close>

definition Poly :: uint16 where
  "Poly = 0x1021"

definition Init :: uint16 where
  "Init = 0xFFFF"

definition XorOut :: uint16 where
  "XorOut = 0x0000"

definition shift_step :: "uint16 \<Rightarrow> uint16" where
  "shift_step crc =
     (let bit = (crc AND 0x8000 \<noteq> 0); crc' = push_bit 1 crc
      in if bit then crc' XOR Poly else crc')"

definition MakeTable :: "byte \<Rightarrow> uint16" where
  "MakeTable n = (shift_step ^^ 8) (push_bit 8 (ucast n))"

fun Update :: "uint16 \<Rightarrow> byte list \<Rightarrow> uint16" where
  "Update crc [] = crc"
| "Update crc (d # ds) =
     Update (push_bit 8 crc XOR MakeTable (ucast (drop_bit 8 crc) XOR d)) ds"

definition Complete :: "uint16 \<Rightarrow> uint16" where
  "Complete crc = crc XOR XorOut"

definition Checksum :: "byte list \<Rightarrow> uint16" where
  "Checksum data = Complete (Update Init data)"

section \<open>Package usbprotocol: constants and types\<close>

definition packetSize :: nat where
  "packetSize = 64"

definition MaxPayloadLen :: nat where
  "MaxPayloadLen = packetSize - 4 - 2"

definition sync :: byte where
  "sync = 0x69"

definition idxSync :: nat where "idxSync = 0"
definition idxCmd :: nat where "idxCmd = 1"
definition idxErr :: nat where "idxErr = 2"
definition idxlen :: nat where "idxlen = 3"
definition idxPayload :: nat where "idxPayload = 4"

text \<open>
  \<open>UsbError\<close>: the five package errors, and \<open>ErrWrite\<close> for an error value returned
  by the serial port's \<^verbatim>\<open>Write\<close>, which \<open>Transfer\<close> hands on unchanged.
\<close>

datatype UsbError = ErrSize | ErrCmdMismatch | ErrSerial | ErrTimeout | ErrParam | ErrWrite

type_synonym CommandID = byte

definition CmdTest :: CommandID where "CmdTest = 0x61"
definition CmdIrq :: CommandID where "CmdIrq = 0x80"
definition CmdRx :: CommandID where "CmdRx = 0x81"

record message =
  cmd :: CommandID
  err :: byte
  payload :: slice

section \<open>The outbound frame of Transfer\<close>

text \<open>
  Lines 146 to 162 of \<^verbatim>\<open>Transfer\<close>: the zeroed 64-byte array \<^verbatim>\<open>txBuf\<close>, the four
  header bytes, the payload copied to offset 4 when it is not nil, and the checksum of
  \<^verbatim>\<open>txBuf[:len(txBuf)-2]\<close> written low byte first.  \<^verbatim>\<open>byte(len(payload))\<close> truncates
  to eight bits.
\<close>

definition txBuf :: "CommandID \<Rightarrow> slice \<Rightarrow> byte list" where
  "txBuf c p =
     (let b0 = replicate packetSize (0 :: byte);
          b1 = b0[0 := sync];
          b2 = b1[1 := c];
          b3 = b2[2 := 0];
          b4 = (case p of
                  None \<Rightarrow> b3[3 := 0]
                | Some xs \<Rightarrow> copy (b3[3 := of_nat (length xs)]) 4 xs);
          crc = Checksum (take (length b4 - 2) b4);
          h = (ucast (crc AND 0xff) :: byte);
          l = (ucast (drop_bit 8 crc) :: byte)
      in b4[62 := h, 63 := l])"

section \<open>One iteration of serialReaderThread\<close>

text \<open>
  What one pass of the read loop does, once the port is set, with the outcome of
  \<^verbatim>\<open>port.Read(rxBuf[:])\<close>:
  \<open>data\<close> are the bytes the port delivered into the zeroed buffer (at most 64),
  \<open>rerr\<close> tells whether the read returned an error.  The pass either goes on to the next
  read (\<open>Discard\<close>), sends a message on \<^verbatim>\<open>rxChannel\<close> (\<open>Publish\<close>), or panics in the
  slice expression \<^verbatim>\<open>rxBuf[idxPayload : idxPayload+payloadLen]\<close>, whose upper bound is
  computed in \<^verbatim>\<open>uint8\<close> (it wraps at 256) and must lie between 4 and 64.
\<close>

datatype read_outcome = Discard | Publish message | PanicSliceBounds

definition LittleEndian_Uint16 :: "byte list \<Rightarrow> uint16" where
  "LittleEndian_Uint16 b = ucast (b ! 0) OR push_bit 8 (ucast (b ! 1))"

definition serialReaderThread :: "byte list \<Rightarrow> bool \<Rightarrow> read_outcome" where
  "serialReaderThread data rerr =
     (let rxBuf = take packetSize data @ replicate (packetSize - length data) (0 :: byte);
          bytesRead = min packetSize (length data)
      in if rerr \<or> bytesRead \<noteq> packetSize then Discard
         else if rxBuf ! idxSync \<noteq> sync then Discard
         else
           (let crcCalc = Checksum (take (packetSize - 2) rxBuf);
                crcRx = LittleEndian_Uint16 (drop (packetSize - 2) rxBuf)
            in if crcCalc \<noteq> crcRx then Discard
               else
                 (let payloadLen = rxBuf ! 3;
                      hi = unat ((of_nat idxPayload :: byte) + payloadLen)
                  in if hi < idxPayload \<or> packetSize < hi then PanicSliceBounds
                     else Publish \<lparr>cmd = rxBuf ! idxCmd, err = rxBuf ! idxErr,
                            payload = Some (take (hi - idxPayload) (drop idxPayload rxBuf))\<rparr>)))"

section \<open>The dispatcher goroutine receive\<close>

text \<open>
  A registered callback: the command it is registered for and the handler, which the
  model knows by a number (\<open>None\<close> is a nil function value).
\<close>

record callback =
  cmd_cb :: CommandID
  cbFunc :: "nat option"

text \<open>
  The loop over \<^verbatim>\<open>callbacks\<close> at lines 207 to 212, with the flag \<^verbatim>\<open>isAnswer\<close> as an
  accumulator: it returns the handler calls made, in order, each with the status byte and
  the payload it was given, and the final value of the flag.
\<close>

fun callback_loop ::
  "callback list \<Rightarrow> message \<Rightarrow> bool \<Rightarrow> (callback \<times> byte \<times> slice) list \<times> bool" where
  "callback_loop [] msg isAnswer = ([], isAnswer)"
| "callback_loop (cb # cbs) msg isAnswer =
     (if cmd_cb cb = cmd msg
      then (let (calls, a) = callback_loop cbs msg False
            in ((cb, err msg, payload msg) # calls, a))
      else callback_loop cbs msg isAnswer)"

text \<open>
  The goroutine is either at its \<^verbatim>\<open>select\<close> (\<open>AtSelect\<close>) or inside the send
  \<^verbatim>\<open>ansChannel <- msg\<close> (\<open>AtSend msg\<close>).  \<^verbatim>\<open>ansChannel\<close> is made without a buffer,
  so the send completes only when a \<open>Transfer\<close> receives from the channel.  The events:
  a callback arrives on \<^verbatim>\<open>regCallbackChannel\<close>, a message arrives on \<^verbatim>\<open>rxChannel\<close>, or
  a receiver takes the message offered on \<^verbatim>\<open>ansChannel\<close>.  \<open>receive\<close> gives the next
  state, or \<open>None\<close> when the goroutine cannot take part in the event where it stands.
  \<open>invoked\<close> is the log of handler calls made so far.
\<close>

datatype receive_pc = AtSelect | AtSend message

datatype event = Register callback | Frame message | Taken

record receive_state =
  callbacks :: "callback list"
  pc :: receive_pc
  invoked :: "(callback \<times> byte \<times> slice) list"

definition receive :: "receive_state \<Rightarrow> event \<Rightarrow> receive_state option" where
  "receive st ev =
     (case pc st of
        AtSend m \<Rightarrow>
          (case ev of
             Taken \<Rightarrow> Some (st\<lparr>pc := AtSelect\<rparr>)
           | Register tempCallback \<Rightarrow> None
           | Frame msg \<Rightarrow> None)
      | AtSelect \<Rightarrow>
          (case ev of
             Register tempCallback \<Rightarrow>
               Some (if cbFunc tempCallback \<noteq> None
                     then st\<lparr>callbacks := callbacks st @ [tempCallback]\<rparr> else st)
           | Frame msg \<Rightarrow>
               (let (calls, isAnswer) = callback_loop (callbacks st) msg True
                in Some (st\<lparr>invoked := invoked st @ calls,
                            pc := (if isAnswer then AtSend msg else AtSelect)\<rparr>))
           | Taken \<Rightarrow> None))"

text \<open>
  \<^verbatim>\<open>RegisterCallback\<close>: a nil handler is refused with \<open>ErrParam\<close>; otherwise the callback
  is sent to the dispatcher, which must be at its \<^verbatim>\<open>select\<close> to take it.
\<close>

definition RegisterCallback ::
  "receive_state \<Rightarrow> CommandID \<Rightarrow> nat option \<Rightarrow> UsbError option \<times> receive_state option" where
  "RegisterCallback st c f =
     (if f = None then (Some ErrParam, Some st)
      else (None, receive st (Register \<lparr>cmd_cb = c, cbFunc = f\<rparr>)))"

section \<open>Transfer\<close>

text \<open>
  The \<^verbatim>\<open>select\<close> at lines 176 to 189.  \<open>inbound\<close> are the messages the reader thread
  publishes on \<^verbatim>\<open>rxChannel\<close> before the timeout runs out, in order.  A message the
  dispatcher is already offering is received at once; otherwise the dispatcher handles
  the inbound messages one by one until it offers one; when none is offered the timeout
  fires.  The result is the outcome, the dispatcher's state, and the inbound messages
  not yet taken from \<^verbatim>\<open>rxChannel\<close>.
\<close>

datatype select_outcome = Answer message | TimedOut

fun await_answer ::
  "receive_state \<Rightarrow> message list \<Rightarrow> select_outcome \<times> receive_state \<times> message list" where
  "await_answer st [] =
     (case pc st of
        AtSend m \<Rightarrow> (Answer m, st\<lparr>pc := AtSelect\<rparr>, [])
      | AtSelect \<Rightarrow> (TimedOut, st, []))"
| "await_answer st (f # fs) =
     (case pc st of
        AtSend m \<Rightarrow> (Answer m, st\<lparr>pc := AtSelect\<rparr>, f # fs)
      | AtSelect \<Rightarrow>
          (case receive st (Frame f) of
             Some st' \<Rightarrow> await_answer st' fs
           | None \<Rightarrow> (TimedOut, st, f # fs)))"

text \<open>
  \<^verbatim>\<open>Transfer(cmd, payload)\<close>.  \<open>wr\<close> is what \<^verbatim>\<open>port.Write\<close> returns: the number of
  bytes written and whether it returned an error.  The result holds the three return
  values, the frames handed to \<^verbatim>\<open>port.Write\<close>, the dispatcher's state and the inbound
  messages left on \<^verbatim>\<open>rxChannel\<close>.
\<close>

record transfer_result =
  status :: byte
  reply :: slice
  error :: "UsbError option"
  written :: "byte list list"
  dispatcher :: receive_state
  unread :: "message list"

definition Transfer ::
  "receive_state \<Rightarrow> CommandID \<Rightarrow> slice \<Rightarrow> nat \<times> bool \<Rightarrow> message list \<Rightarrow> transfer_result" where
  "Transfer st c p wr inbound =
     (if len p > MaxPayloadLen
      then \<lparr>status = 0, reply = None, error = Some ErrSize, written = [],
            dispatcher = st, unread = inbound\<rparr>
      else
        (let tx = txBuf c p; (bytesWritten, werr) = wr
         in if werr
            then \<lparr>status = 0, reply = None, error = Some ErrWrite, written = [tx],
                  dispatcher = st, unread = inbound\<rparr>
            else if bytesWritten \<noteq> length tx
            then \<lparr>status = 0, reply = None, error = Some ErrSerial, written = [tx],
                  dispatcher = st, unread = inbound\<rparr>
            else
              (case await_answer st inbound of
                 (Answer answer, st', rest) \<Rightarrow>
                   (if cmd answer \<noteq> c
                    then \<lparr>status = 0, reply = None, error = Some ErrCmdMismatch,
                          written = [tx], dispatcher = st', unread = rest\<rparr>
                    else \<lparr>status = err answer, reply = payload answer, error = None,
                          written = [tx], dispatcher = st', unread = rest\<rparr>)
               | (TimedOut, st', rest) \<Rightarrow>
                   \<lparr>status = 0, reply = None, error = Some ErrTimeout, written = [tx],
                    dispatcher = st', unread = rest\<rparr>)))"

section \<open>Package esbbridge\<close>

definition AddressSize :: nat where
  "AddressSize = 5"

definition MaxPayloadSize :: byte where
  "MaxPayloadSize = 32"

definition UsbCmdVersion :: CommandID where "UsbCmdVersion = 0x10"
definition UsbCmdTransfer :: CommandID where "UsbCmdTransfer = 0x30"
definition UsbCmdSend :: CommandID where "UsbCmdSend = 0x31"
definition UsbCmdRx :: CommandID where "UsbCmdRx = 0x81"

text \<open>
  esbbridge is written against \<^verbatim>\<open>usbprotocol.Message\<close>, a struct with the fields
  \<^verbatim>\<open>Cmd\<close>, \<^verbatim>\<open>Err\<close> and \<^verbatim>\<open>Payload\<close>, and against a \<^verbatim>\<open>usbprotocol.Transfer\<close> that takes
  one and returns one with an error.  That transfer function is a parameter \<open>usb\<close> of
  the operations below; they return, beside their result, the messages they passed to it.
\<close>

record Message =
  Cmd :: CommandID
  Err :: byte
  Payload :: slice

record EsbMessage =
  address :: slice
  cmd_esb :: byte
  payload_esb :: slice

text \<open>
  A listener: the source address filter (a \<^verbatim>\<open>[5]byte\<close>, here a list of five bytes), the
  command filter, and the channel, known by a number.
\<close>

record listener =
  sourceAddr :: "byte list"
  cmd_l :: byte
  channel :: nat

text \<open>
  The errors esbbridge creates with \<^verbatim>\<open>errors.New\<close> and \<^verbatim>\<open>fmt.Errorf\<close>, one constructor
  for each message text, \<open>UsbErr\<close> for an error of usbprotocol handed on, and
  \<open>PanicIndex\<close> for an index out of range.
\<close>

datatype esb_error =
    NotConnected
  | CouldNotConnect
  | PayloadEmpty
  | PayloadTooLong
  | PayloadTooShort
  | VersionError byte
  | TransferError byte
  | UsbErr UsbError
  | InvalidListenerChannel
  | PanicIndex

text \<open>
  The package variables \<^verbatim>\<open>connected\<close> and \<^verbatim>\<open>listeners\<close>, and the serial port of
  usbprotocol: never opened, open, or closed.
\<close>

datatype port_state = NoPort | PortOpen | PortClosed

record bridge_state =
  connected :: bool
  listeners :: "listener list"
  port :: port_state

definition initial_state :: bridge_state where
  "initial_state = \<lparr>connected = False, listeners = [], port = NoPort\<rparr>"

text \<open>\<^verbatim>\<open>usbprotocol.Close\<close>: closes the port when there is one.\<close>

definition usbprotocol_Close :: "port_state \<Rightarrow> port_state" where
  "usbprotocol_Close pt = (if pt \<noteq> NoPort then PortClosed else pt)"

text \<open>
  \<^verbatim>\<open>Open(device)\<close>: \<open>open_failed\<close> tells whether \<^verbatim>\<open>usbprotocol.Open\<close> returned an
  error, \<open>add_err\<close> is what \<^verbatim>\<open>usbprotocol.AddListener\<close> returns.
\<close>

definition esbbridge_Open ::
  "bridge_state \<Rightarrow> bool \<Rightarrow> UsbError option \<Rightarrow> esb_error option \<times> bridge_state" where
  "esbbridge_Open st open_failed add_err =
     (if open_failed then (Some CouldNotConnect, st\<lparr>port := NoPort\<rparr>)
      else (map_option UsbErr add_err, st\<lparr>connected := True, port := PortOpen\<rparr>))"

text \<open>\<^verbatim>\<open>Close()\<close>: its whole body is the call of \<^verbatim>\<open>usbprotocol.Close()\<close>.\<close>

definition esbbridge_Close :: "bridge_state \<Rightarrow> bridge_state" where
  "esbbridge_Close st = st\<lparr>port := usbprotocol_Close (port st)\<rparr>"

text \<open>The builtin \<^verbatim>\<open>append(s, xs...)\<close>: appending nothing to nil gives nil.\<close>

definition append_slice :: "slice \<Rightarrow> byte list \<Rightarrow> slice" where
  "append_slice s xs = (if s = None \<and> xs = [] then None else Some (elems s @ xs))"

text \<open>\<^verbatim>\<open>%v\<close> of a byte: its decimal digits.\<close>

definition digit :: "nat \<Rightarrow> char" where
  "digit n = ''0123456789'' ! (n mod 10)"

definition decimal :: "byte \<Rightarrow> string" where
  "decimal b =
     (let n = unat b
      in if n < 10 then [digit n]
         else if n < 100 then [digit (n div 10), digit n]
         else [digit (n div 100), digit (n div 10), digit n])"

definition GetFwVersion ::
  "bridge_state \<Rightarrow> (Message \<Rightarrow> Message \<times> UsbError option)
     \<Rightarrow> (esb_error + string) \<times> Message list" where
  "GetFwVersion st usb =
     (if \<not> connected st then (Inl NotConnected, [])
      else
        (let txMsg = \<lparr>Cmd = UsbCmdVersion, Err = 0, Payload = None\<rparr>;
             (answerMessage, e) = usb txMsg
         in if Err answerMessage \<noteq> 0x00 then (Inl (VersionError (Err answerMessage)), [txMsg])
            else
              (case e of
                 Some ue \<Rightarrow> (Inl (UsbErr ue), [txMsg])
               | None \<Rightarrow>
                   (if len (Payload answerMessage) < 3 then (Inl PanicIndex, [txMsg])
                    else
                      (let pl = elems (Payload answerMessage)
                       in (Inr (decimal (pl ! 0) @ ''.'' @ decimal (pl ! 1) @ ''.''
                                  @ decimal (pl ! 2)), [txMsg]))))))"

definition esbbridge_Transfer ::
  "bridge_state \<Rightarrow> (Message \<Rightarrow> Message \<times> UsbError option) \<Rightarrow> byte list \<Rightarrow> slice
     \<Rightarrow> (esb_error + slice) \<times> Message list" where
  "esbbridge_Transfer st usb targetAddr pl =
     (if \<not> connected st then (Inl NotConnected, [])
      else if pl = None then (Inl PayloadEmpty, [])
      else if len pl > unat MaxPayloadSize then (Inl PayloadTooLong, [])
      else if len pl < 1 then (Inl PayloadTooShort, [])
      else
        (let txMsg = \<lparr>Cmd = UsbCmdTransfer, Err = 0,
                      Payload = append_slice (append_slice None targetAddr) (elems pl)\<rparr>;
             (answerMessage, e) = usb txMsg
         in if Err answerMessage \<noteq> 0 then (Inl (TransferError (Err answerMessage)), [txMsg])
            else
              (case e of
                 Some ue \<Rightarrow> (Inl (UsbErr ue), [txMsg])
               | None \<Rightarrow> (Inr (Payload answerMessage), [txMsg]))))"

text \<open>\<^verbatim>\<open>AddListener\<close>: \<open>c\<close> is the channel, \<open>None\<close> for nil.\<close>

definition AddListener ::
  "bridge_state \<Rightarrow> byte list \<Rightarrow> byte \<Rightarrow> nat option \<Rightarrow> esb_error option \<times> bridge_state" where
  "AddListener st sa cm c =
     (case c of
        None \<Rightarrow> (Some InvalidListenerChannel, st)
      | Some ch \<Rightarrow>
          (None, st\<lparr>listeners := listeners st @ [\<lparr>sourceAddr = sa, cmd_l = cm, channel = ch\<rparr>]\<rparr>))"

subsection \<open>rxCallbackThread\<close>

text \<open>\<^verbatim>\<open>bytes.Compare\<close>: the lexicographic order of two byte slices as -1, 0 or 1.\<close>

fun bytes_Compare :: "byte list \<Rightarrow> byte list \<Rightarrow> int" where
  "bytes_Compare [] [] = 0"
| "bytes_Compare [] (y # ys) = - 1"
| "bytes_Compare (x # xs) [] = 1"
| "bytes_Compare (x # xs) (y # ys) =
     (if x < y then - 1 else if y < x then 1 else bytes_Compare xs ys)"

text \<open>
  The receiving side of a listener channel, as far as the router can tell: \<open>Drained\<close>
  when every message sent is taken in the end, \<open>Takes n\<close> when only \<open>n\<close> more messages
  are ever taken (free buffer slots and receives still to come), after which a send on
  the channel waits for ever.
\<close>

datatype sink = Drained | Takes nat

text \<open>
  The loop over \<^verbatim>\<open>listeners\<close> at lines 186 to 191.  \<open>sk\<close> gives the sink behind each
  channel.  The send \<^verbatim>\<open>l.channel <- message\<close> waits until the sink takes the message;
  when it never does, the loop stays in that send.  The result is the messages delivered,
  in order, as pairs of channel and message, and the sinks after the loop, or \<open>None\<close>
  when the loop is stuck in a send.
\<close>

fun listener_loop ::
  "(nat \<Rightarrow> sink) \<Rightarrow> listener list \<Rightarrow> EsbMessage
     \<Rightarrow> (nat \<times> EsbMessage) list \<times> (nat \<Rightarrow> sink) option" where
  "listener_loop sk [] m = ([], Some sk)"
| "listener_loop sk (l # ls) m =
     (if (cmd_l l = 0xFF \<or> cmd_l l = cmd_esb m) \<and>
         (bytes_Compare (sourceAddr l) (elems (address m)) = 0 \<or>
          bytes_Compare (sourceAddr l) (replicate 5 0) = 0)
      then
        (case sk (channel l) of
           Drained \<Rightarrow>
             (let (sends, r) = listener_loop sk ls m in ((channel l, m) # sends, r))
         | Takes n \<Rightarrow>
             (case n of
                0 \<Rightarrow> ([], None)
              | Suc k \<Rightarrow>
                  (let (sends, r) = listener_loop (sk(channel l := Takes k)) ls m
                   in ((channel l, m) # sends, r))))
      else listener_loop sk ls m)"

text \<open>
  The goroutine \<^verbatim>\<open>rxCallbackThread\<close> run on the messages that arrive on its channel, in
  order, with the listeners \<open>ls\<close> registered and the sinks \<open>sk\<close>: the messages it
  delivers to listener channels.  On a payload shorter than 6 bytes the function returns,
  which ends the goroutine; stuck in a send it handles no further message; when the
  channel has no more messages it waits.
\<close>

fun rxCallbackThread ::
  "(nat \<Rightarrow> sink) \<Rightarrow> listener list \<Rightarrow> Message list \<Rightarrow> (nat \<times> EsbMessage) list" where
  "rxCallbackThread sk ls [] = []"
| "rxCallbackThread sk ls (usbMsg # rest) =
     (if len (Payload usbMsg) < 6 then []
      else
        (let m0 = \<lparr>address = Some (take 5 (elems (Payload usbMsg))),
                   cmd_esb = elems (Payload usbMsg) ! 5,
                   payload_esb = None\<rparr>;
             m1 = (if len (Payload usbMsg) > 6
                   then m0\<lparr>payload_esb := Some (drop 6 (elems (Payload usbMsg)))\<rparr>
                   else m0)
         in case listener_loop sk ls m1 of
              (sends, None) \<Rightarrow> sends
            | (sends, Some sk') \<Rightarrow> sends @ rxCallbackThread sk' ls rest))"

section \<open>Concurrent callers of Transfer\<close>

text \<open>
  Several goroutines calling \<^verbatim>\<open>Transfer\<close>, each cut at the two places where it meets the
  others: the write at line 165 and the \<^verbatim>\<open>select\<close> at line 176.  A caller is \<open>Idle\<close>
  (outside \<^verbatim>\<open>Transfer\<close>) or \<open>Pending c\<close> (its frame for command \<open>c\<close> written, waiting in
  the \<^verbatim>\<open>select\<close>).  The function body takes no lock and the package has no other state
  that tells a caller of another, so a step of one caller asks nothing of the others.
  The steps:
  \<^item> \<open>Write i c p wr\<close>: caller \<open>i\<close> enters \<^verbatim>\<open>Transfer(c, p)\<close> and runs up to the
    \<^verbatim>\<open>select\<close>; \<open>wr\<close> is what \<^verbatim>\<open>port.Write\<close> returns;
  \<^item> \<open>Receive i\<close>: the \<^verbatim>\<open>select\<close> of caller \<open>i\<close> receives the message the dispatcher
    offers on \<^verbatim>\<open>ansChannel\<close>, and the caller returns;
  \<^item> \<open>Expire i\<close>: the timer of caller \<open>i\<close> fires, and the caller returns;
  \<^item> \<open>Inbound m\<close>: the dispatcher takes \<open>m\<close> from \<^verbatim>\<open>rxChannel\<close>.
  \<open>wire\<close> are the frames handed to \<^verbatim>\<open>port.Write\<close> and \<open>returned\<close> the return
  values of the callers, both in order of time.  \<open>Transfer_step\<close> is \<open>None\<close> when the
  step cannot happen in the state.
\<close>

datatype caller_pc = Idle | Pending CommandID

datatype step = Write nat CommandID slice "nat \<times> bool" | Receive nat | Expire nat
  | Inbound message

record system =
  disp :: receive_state
  callers :: "nat \<Rightarrow> caller_pc"
  wire :: "byte list list"
  returned :: "(nat \<times> byte \<times> slice \<times> UsbError option) list"

definition Transfer_step :: "system \<Rightarrow> step \<Rightarrow> system option" where
  "Transfer_step s x =
     (case x of
        Write i c p wr \<Rightarrow>
          (case callers s i of
             Pending c' \<Rightarrow> None
           | Idle \<Rightarrow>
               (if len p > MaxPayloadLen
                then Some (s\<lparr>returned := returned s @ [(i, 0, None, Some ErrSize)]\<rparr>)
                else
                  (let tx = txBuf c p; (bytesWritten, werr) = wr
                   in if werr
                      then Some (s\<lparr>wire := wire s @ [tx],
                                   returned := returned s @ [(i, 0, None, Some ErrWrite)]\<rparr>)
                      else if bytesWritten \<noteq> length tx
                      then Some (s\<lparr>wire := wire s @ [tx],
                                   returned := returned s @ [(i, 0, None, Some ErrSerial)]\<rparr>)
                      else Some (s\<lparr>wire := wire s @ [tx],
                                   callers := (callers s)(i := Pending c)\<rparr>))))
      | Receive i \<Rightarrow>
          (case callers s i of
             Idle \<Rightarrow> None
           | Pending c \<Rightarrow>
               (case pc (disp s) of
                  AtSelect \<Rightarrow> None
                | AtSend answer \<Rightarrow>
                    Some (s\<lparr>disp := (disp s)\<lparr>pc := AtSelect\<rparr>,
                            callers := (callers s)(i := Idle),
                            returned := returned s @
                              [if cmd answer \<noteq> c then (i, 0, None, Some ErrCmdMismatch)
                               else (i, err answer, payload answer, None)]\<rparr>)))
      | Expire i \<Rightarrow>
          (case callers s i of
             Idle \<Rightarrow> None
           | Pending c \<Rightarrow>
               Some (s\<lparr>callers := (callers s)(i := Idle),
                       returned := returned s @ [(i, 0, None, Some ErrTimeout)]\<rparr>))
      | Inbound m \<Rightarrow>
          (case receive (disp s) (Frame m) of
             None \<Rightarrow> None
           | Some d \<Rightarrow> Some (s\<lparr>disp := d\<rparr>)))"

fun run :: "system \<Rightarrow> step list \<Rightarrow> system option" where
  "run s [] = Some s"
| "run s (x # xs) = (case Transfer_step s x of None \<Rightarrow> None | Some s' \<Rightarrow> run s' xs)"

section \<open>The layout of a frame\<close>

text \<open>
  The first 62 bytes of a frame as the wire format lays them out: sync byte, command,
  status 0, payload length, the payload, zeros up to byte 61.
\<close>

definition frame_body :: "CommandID \<Rightarrow> slice \<Rightarrow> byte list" where
  "frame_body c p = [sync, c, 0, of_nat (len p)] @ elems p @ replicate (58 - len p) 0"

text \<open>
  A frame with a correct checksum around 62 given bytes: the bytes followed by the low
  and the high byte of their CRC, as a device can send it.
\<close>

definition with_crc :: "byte list \<Rightarrow> byte list" where
  "with_crc b = b @ [ucast (Checksum b AND 0xff), ucast (drop_bit 8 (Checksum b))]"



section \<open>Properties of the transport\<close>

lemma MaxPayloadLen_58: "MaxPayloadLen = 58"
  by (simp add: MaxPayloadLen_def packetSize_def)

lemma copy_fits:
  "off + length src \<le> length dst \<Longrightarrow>
   copy dst off src = take off dst @ src @ drop (off + length src) dst"
  by (auto simp add: copy_def Let_def min_def)

lemma header_eq:
  "(replicate 64 (0::byte))[0 := a, Suc 0 := b, 2 := c, 3 := d] = [a, b, c, d] @ replicate 60 0"
  by (simp add: eval_nat_numeral)

lemma drop4: "drop (4 + n) (a # b # c # d # ys) = drop n ys"
  by (simp add: eval_nat_numeral)

lemma length_frame_body: "len p \<le> 58 \<Longrightarrow> length (frame_body c p) = 62"
  by (cases p) (simp_all add: frame_body_def len_def elems_def)

lemma txBuf_normal:
  assumes "len p \<le> 58"
  shows "txBuf c p = frame_body c p @
           [ucast (Checksum (frame_body c p) AND 0xff),
            ucast (drop_bit 8 (Checksum (frame_body c p)))]"
proof -
  define b4 where "b4 =
    (case p of
       None \<Rightarrow> (replicate 64 (0::byte))[0 := sync, 1 := c, 2 := 0, 3 := 0]
     | Some xs \<Rightarrow>
         copy ((replicate 64 (0::byte))[0 := sync, 1 := c, 2 := 0, 3 := of_nat (length xs)]) 4 xs)"
  have b4: "b4 = frame_body c p @ [0, 0]"
  proof (cases p)
    case None
    then show ?thesis
      by (simp add: b4_def header_eq frame_body_def len_def elems_def)
         (simp add: eval_nat_numeral)
  next
    case (Some xs)
    with assms have le: "length xs \<le> 58" by (simp add: len_def)
    have "replicate (60 - length xs) (0::byte) = replicate (58 - length xs) 0 @ [0, 0]"
    proof -
      have "60 - length xs = (58 - length xs) + 2" using le by arith
      then have "replicate (60 - length xs) (0::byte) =
                 replicate (58 - length xs) 0 @ replicate 2 0"
        by (simp only: replicate_add)
      then show ?thesis by (simp add: eval_nat_numeral)
    qed
    then show ?thesis using le Some
      by (simp add: b4_def header_eq frame_body_def len_def elems_def copy_fits drop4)
  qed
  have tx: "txBuf c p =
    (let crc = Checksum (take (length b4 - 2) b4)
     in b4[62 := ucast (crc AND 0xff), 63 := ucast (drop_bit 8 crc)])"
    by (simp only: txBuf_def b4_def Let_def packetSize_def)
  have l: "length (frame_body c p) = 62" using assms by (rule length_frame_body)
  show ?thesis
    unfolding tx b4 Let_def using l by (simp add: list_update_append)
qed

lemma nth_frame_body_pad:
  assumes "len p \<le> 58" "4 + len p \<le> i" "i < 62"
  shows "frame_body c p ! i = 0"
  using assms
  by (cases p)
     (auto simp add: frame_body_def len_def elems_def nth_append nth_Cons split: nat.splits)

lemma split_join16:
  "ucast (ucast (take_bit 8 w) :: byte) OR push_bit 8 (ucast (ucast (drop_bit 8 w) :: byte))
     = (w::uint16)"
  by (rule bit_word_eqI) (auto simp add: bit_simps)

lemma LittleEndian_Uint16_bytes:
  "LittleEndian_Uint16 [ucast (w AND 0xff), ucast (drop_bit 8 w)] = (w::uint16)"
proof -
  have m: "w AND 0xff = take_bit 8 w"
    using take_bit_eq_mask [of 8 w] by (simp add: mask_eq_exp_minus_1)
  show ?thesis
    unfolding LittleEndian_Uint16_def m using split_join16 [of w] by simp
qed

lemma txBuf_parts:
  assumes "len p \<le> 58"
  shows "length (txBuf c p) = 64"
    and "take 62 (txBuf c p) = frame_body c p"
    and "drop 62 (txBuf c p) =
           [ucast (Checksum (frame_body c p) AND 0xff),
            ucast (drop_bit 8 (Checksum (frame_body c p)))]"
  using length_frame_body [OF assms, of c] by (simp_all add: txBuf_normal [OF assms])

lemma nth_txBuf_body:
  assumes "len p \<le> 58" "i < 62"
  shows "txBuf c p ! i = frame_body c p ! i"
  using assms length_frame_body [OF assms(1), of c] by (simp add: txBuf_normal nth_append)

lemma frame_body_header:
  "frame_body c p ! 0 = sync" "frame_body c p ! Suc 0 = c"
  "frame_body c p ! 2 = 0" "frame_body c p ! 3 = of_nat (len p)"
  by (simp_all add: frame_body_def)

lemma frame_body_payload: "take (len p) (drop 4 (frame_body c p)) = elems p"
  by (cases p) (simp_all add: frame_body_def len_def elems_def)

lemma txBuf_payload:
  assumes "len p \<le> 58"
  shows "take (len p) (drop 4 (txBuf c p)) = elems p"
proof -
  have "take (len p) (drop 4 (txBuf c p)) = take (len p) (drop 4 (take 62 (txBuf c p)))"
    using assms by (simp add: drop_take take_take min_def)
  then show ?thesis by (simp only: txBuf_parts(2) [OF assms] frame_body_payload)
qed

lemma unat_len_byte: "n \<le> 58 \<Longrightarrow> unat (of_nat n :: byte) = n"
  by (simp add: unat_of_nat)

lemma unat_hi: "n \<le> 58 \<Longrightarrow> unat ((4 :: byte) + of_nat n) = 4 + n"
  by (simp add: unat_word_ariths unat_of_nat)

subsection \<open>The checksum on concrete data\<close>

text \<open>
  The table of \<open>MakeTable\<close>, the check value of CRC-16/CCITT-FALSE on the ASCII
  digits 1 to 9, and the checksums of four frame bodies.
\<close>

lemma funpow8: "(f ^^ 8) x = f (f (f (f (f (f (f (f x)))))))"
  by (simp add: eval_nat_numeral)

lemma MakeTable_data:
  "MakeTable 0x00 = 0x0000" "MakeTable 0x01 = 0x1021" "MakeTable 0x02 = 0x2042" "MakeTable 0x03 = 0x3063"
  "MakeTable 0x04 = 0x4084" "MakeTable 0x05 = 0x50A5" "MakeTable 0x06 = 0x60C6" "MakeTable 0x07 = 0x70E7"
  "MakeTable 0x08 = 0x8108" "MakeTable 0x09 = 0x9129" "MakeTable 0x0A = 0xA14A" "MakeTable 0x0B = 0xB16B"
  "MakeTable 0x0C = 0xC18C" "MakeTable 0x0D = 0xD1AD" "MakeTable 0x0E = 0xE1CE" "MakeTable 0x0F = 0xF1EF"
  "MakeTable 0x10 = 0x1231" "MakeTable 0x11 = 0x0210" "MakeTable 0x12 = 0x3273" "MakeTable 0x13 = 0x2252"
  "MakeTable 0x14 = 0x52B5" "MakeTable 0x15 = 0x4294" "MakeTable 0x16 = 0x72F7" "MakeTable 0x17 = 0x62D6"
  "MakeTable 0x18 = 0x9339" "MakeTable 0x19 = 0x8318" "MakeTable 0x1A = 0xB37B" "MakeTable 0x1B = 0xA35A"
  "MakeTable 0x1C = 0xD3BD" "MakeTable 0x1D = 0xC39C" "MakeTable 0x1E = 0xF3FF" "MakeTable 0x1F = 0xE3DE"
  "MakeTable 0x20 = 0x2462" "MakeTable 0x21 = 0x3443" "MakeTable 0x22 = 0x0420" "MakeTable 0x23 = 0x1401"
  "MakeTable 0x24 = 0x64E6" "MakeTable 0x25 = 0x74C7" "MakeTable 0x26 = 0x44A4" "MakeTable 0x27 = 0x5485"
  "MakeTable 0x28 = 0xA56A" "MakeTable 0x29 = 0xB54B" "MakeTable 0x2A = 0x8528" "MakeTable 0x2B = 0x9509"
  "MakeTable 0x2C = 0xE5EE" "MakeTable 0x2D = 0xF5CF" "MakeTable 0x2E = 0xC5AC" "MakeTable 0x2F = 0xD58D"
  "MakeTable 0x30 = 0x3653" "MakeTable 0x31 = 0x2672" "MakeTable 0x32 = 0x1611" "MakeTable 0x33 = 0x0630"
  "MakeTable 0x34 = 0x76D7" "MakeTable 0x35 = 0x66F6" "MakeTable 0x36 = 0x5695" "MakeTable 0x37 = 0x46B4"
  "MakeTable 0x38 = 0xB75B" "MakeTable 0x39 = 0xA77A" "MakeTable 0x3A = 0x9719" "MakeTable 0x3B = 0x8738"
  "MakeTable 0x3C = 0xF7DF" "MakeTable 0x3D = 0xE7FE" "MakeTable 0x3E = 0xD79D" "MakeTable 0x3F = 0xC7BC"
  "MakeTable 0x40 = 0x48C4" "MakeTable 0x41 = 0x58E5" "MakeTable 0x42 = 0x6886" "MakeTable 0x43 = 0x78A7"
  "MakeTable 0x44 = 0x0840" "MakeTable 0x45 = 0x1861" "MakeTable 0x46 = 0x2802" "MakeTable 0x47 = 0x3823"
  "MakeTable 0x48 = 0xC9CC" "MakeTable 0x49 = 0xD9ED" "MakeTable 0x4A = 0xE98E" "MakeTable 0x4B = 0xF9AF"
  "MakeTable 0x4C = 0x8948" "MakeTable 0x4D = 0x9969" "MakeTable 0x4E = 0xA90A" "MakeTable 0x4F = 0xB92B"
  "MakeTable 0x50 = 0x5AF5" "MakeTable 0x51 = 0x4AD4" "MakeTable 0x52 = 0x7AB7" "MakeTable 0x53 = 0x6A96"
  "MakeTable 0x54 = 0x1A71" "MakeTable 0x55 = 0x0A50" "MakeTable 0x56 = 0x3A33" "MakeTable 0x57 = 0x2A12"
  "MakeTable 0x58 = 0xDBFD" "MakeTable 0x59 = 0xCBDC" "MakeTable 0x5A = 0xFBBF" "MakeTable 0x5B = 0xEB9E"
  "MakeTable 0x5C = 0x9B79" "MakeTable 0x5D = 0x8B58" "MakeTable 0x5E = 0xBB3B" "MakeTable 0x5F = 0xAB1A"
  "MakeTable 0x60 = 0x6CA6" "MakeTable 0x61 = 0x7C87" "MakeTable 0x62 = 0x4CE4" "MakeTable 0x63 = 0x5CC5"
  "MakeTable 0x64 = 0x2C22" "MakeTable 0x65 = 0x3C03" "MakeTable 0x66 = 0x0C60" "MakeTable 0x67 = 0x1C41"
  "MakeTable 0x68 = 0xEDAE" "MakeTable 0x69 = 0xFD8F" "MakeTable 0x6A = 0xCDEC" "MakeTable 0x6B = 0xDDCD"
  "MakeTable 0x6C = 0xAD2A" "MakeTable 0x6D = 0xBD0B" "MakeTable 0x6E = 0x8D68" "MakeTable 0x6F = 0x9D49"
  "MakeTable 0x70 = 0x7E97" "MakeTable 0x71 = 0x6EB6" "MakeTable 0x72 = 0x5ED5" "MakeTable 0x73 = 0x4EF4"
  "MakeTable 0x74 = 0x3E13" "MakeTable 0x75 = 0x2E32" "MakeTable 0x76 = 0x1E51" "MakeTable 0x77 = 0x0E70"
  "MakeTable 0x78 = 0xFF9F" "MakeTable 0x79 = 0xEFBE" "MakeTable 0x7A = 0xDFDD" "MakeTable 0x7B = 0xCFFC"
  "MakeTable 0x7C = 0xBF1B" "MakeTable 0x7D = 0xAF3A" "MakeTable 0x7E = 0x9F59" "MakeTable 0x7F = 0x8F78"
  "MakeTable 0x80 = 0x9188" "MakeTable 0x81 = 0x81A9" "MakeTable 0x82 = 0xB1CA" "MakeTable 0x83 = 0xA1EB"
  "MakeTable 0x84 = 0xD10C" "MakeTable 0x85 = 0xC12D" "MakeTable 0x86 = 0xF14E" "MakeTable 0x87 = 0xE16F"
  "MakeTable 0x88 = 0x1080" "MakeTable 0x89 = 0x00A1" "MakeTable 0x8A = 0x30C2" "MakeTable 0x8B = 0x20E3"
  "MakeTable 0x8C = 0x5004" "MakeTable 0x8D = 0x4025" "MakeTable 0x8E = 0x7046" "MakeTable 0x8F = 0x6067"
  "MakeTable 0x90 = 0x83B9" "MakeTable 0x91 = 0x9398" "MakeTable 0x92 = 0xA3FB" "MakeTable 0x93 = 0xB3DA"
  "MakeTable 0x94 = 0xC33D" "MakeTable 0x95 = 0xD31C" "MakeTable 0x96 = 0xE37F" "MakeTable 0x97 = 0xF35E"
  "MakeTable 0x98 = 0x02B1" "MakeTable 0x99 = 0x1290" "MakeTable 0x9A = 0x22F3" "MakeTable 0x9B = 0x32D2"
  "MakeTable 0x9C = 0x4235" "MakeTable 0x9D = 0x5214" "MakeTable 0x9E = 0x6277" "MakeTable 0x9F = 0x7256"
  "MakeTable 0xA0 = 0xB5EA" "MakeTable 0xA1 = 0xA5CB" "MakeTable 0xA2 = 0x95A8" "MakeTable 0xA3 = 0x8589"
  "MakeTable 0xA4 = 0xF56E" "MakeTable 0xA5 = 0xE54F" "MakeTable 0xA6 = 0xD52C" "MakeTable 0xA7 = 0xC50D"
  "MakeTable 0xA8 = 0x34E2" "MakeTable 0xA9 = 0x24C3" "MakeTable 0xAA = 0x14A0" "MakeTable 0xAB = 0x0481"
  "MakeTable 0xAC = 0x7466" "MakeTable 0xAD = 0x6447" "MakeTable 0xAE = 0x5424" "MakeTable 0xAF = 0x4405"
  "MakeTable 0xB0 = 0xA7DB" "MakeTable 0xB1 = 0xB7FA" "MakeTable 0xB2 = 0x8799" "MakeTable 0xB3 = 0x97B8"
  "MakeTable 0xB4 = 0xE75F" "MakeTable 0xB5 = 0xF77E" "MakeTable 0xB6 = 0xC71D" "MakeTable 0xB7 = 0xD73C"
  "MakeTable 0xB8 = 0x26D3" "MakeTable 0xB9 = 0x36F2" "MakeTable 0xBA = 0x0691" "MakeTable 0xBB = 0x16B0"
  "MakeTable 0xBC = 0x6657" "MakeTable 0xBD = 0x7676" "MakeTable 0xBE = 0x4615" "MakeTable 0xBF = 0x5634"
  "MakeTable 0xC0 = 0xD94C" "MakeTable 0xC1 = 0xC96D" "MakeTable 0xC2 = 0xF90E" "MakeTable 0xC3 = 0xE92F"
  "MakeTable 0xC4 = 0x99C8" "MakeTable 0xC5 = 0x89E9" "MakeTable 0xC6 = 0xB98A" "MakeTable 0xC7 = 0xA9AB"
  "MakeTable 0xC8 = 0x5844" "MakeTable 0xC9 = 0x4865" "MakeTable 0xCA = 0x7806" "MakeTable 0xCB = 0x6827"
  "MakeTable 0xCC = 0x18C0" "MakeTable 0xCD = 0x08E1" "MakeTable 0xCE = 0x3882" "MakeTable 0xCF = 0x28A3"
  "MakeTable 0xD0 = 0xCB7D" "MakeTable 0xD1 = 0xDB5C" "MakeTable 0xD2 = 0xEB3F" "MakeTable 0xD3 = 0xFB1E"
  "MakeTable 0xD4 = 0x8BF9" "MakeTable 0xD5 = 0x9BD8" "MakeTable 0xD6 = 0xABBB" "MakeTable 0xD7 = 0xBB9A"
  "MakeTable 0xD8 = 0x4A75" "MakeTable 0xD9 = 0x5A54" "MakeTable 0xDA = 0x6A37" "MakeTable 0xDB = 0x7A16"
  "MakeTable 0xDC = 0x0AF1" "MakeTable 0xDD = 0x1AD0" "MakeTable 0xDE = 0x2AB3" "MakeTable 0xDF = 0x3A92"
  "MakeTable 0xE0 = 0xFD2E" "MakeTable 0xE1 = 0xED0F" "MakeTable 0xE2 = 0xDD6C" "MakeTable 0xE3 = 0xCD4D"
  "MakeTable 0xE4 = 0xBDAA" "MakeTable 0xE5 = 0xAD8B" "MakeTable 0xE6 = 0x9DE8" "MakeTable 0xE7 = 0x8DC9"
  "MakeTable 0xE8 = 0x7C26" "MakeTable 0xE9 = 0x6C07" "MakeTable 0xEA = 0x5C64" "MakeTable 0xEB = 0x4C45"
  "MakeTable 0xEC = 0x3CA2" "MakeTable 0xED = 0x2C83" "MakeTable 0xEE = 0x1CE0" "MakeTable 0xEF = 0x0CC1"
  "MakeTable 0xF0 = 0xEF1F" "MakeTable 0xF1 = 0xFF3E" "MakeTable 0xF2 = 0xCF5D" "MakeTable 0xF3 = 0xDF7C"
  "MakeTable 0xF4 = 0xAF9B" "MakeTable 0xF5 = 0xBFBA" "MakeTable 0xF6 = 0x8FD9" "MakeTable 0xF7 = 0x9FF8"
  "MakeTable 0xF8 = 0x6E17" "MakeTable 0xF9 = 0x7E36" "MakeTable 0xFA = 0x4E55" "MakeTable 0xFB = 0x5E74"
  "MakeTable 0xFC = 0x2E93" "MakeTable 0xFD = 0x3EB2" "MakeTable 0xFE = 0x0ED1" "MakeTable 0xFF = 0x1EF0"
  by (simp_all add: MakeTable_def funpow8 shift_step_def Poly_def)

lemma zeros58: "replicate 58 (0::byte) = [0, 0, 0, 0, 0, 0, 0, 0, 0, 0, 0, 0, 0, 0, 0, 0, 0, 0, 0, 0, 0, 0, 0, 0, 0, 0, 0, 0, 0, 0, 0, 0, 0, 0, 0, 0, 0, 0, 0, 0, 0, 0, 0, 0, 0, 0, 0, 0, 0, 0, 0, 0, 0, 0, 0, 0, 0, 0]"
  by (simp add: eval_nat_numeral)

lemma Checksum_check_value:
  "Checksum [0x31, 0x32, 0x33, 0x34, 0x35, 0x36, 0x37, 0x38, 0x39] = 0x29B1"
  by (simp add: Checksum_def Complete_def Init_def XorOut_def MakeTable_data)

lemma Checksum_frames:
  "Checksum (0x69 # 0x10 # 0 # 0 # replicate 58 0) = 0x19B1"
  "Checksum (0x69 # 0x61 # 0 # 61 # replicate 58 0) = 0x75D6"
  "Checksum (0x69 # 0x61 # 0 # 255 # replicate 58 0) = 0x1837"
  "Checksum (0x69 # 0x61 # 0 # 59 # replicate 58 0) = 0x9A71"
  by (simp_all add: zeros58 Checksum_def Complete_def Init_def XorOut_def MakeTable_data)

lemma txBuf_0x10: "txBuf 0x10 None = [0x69, 0x10] @ replicate 60 0 @ [0xB1, 0x19]"
proof -
  have fb: "frame_body 0x10 None = [0x69, 0x10, 0, 0] @ replicate 58 0"
    by (simp add: frame_body_def len_def elems_def sync_def)
  have "txBuf 0x10 None = [0x69, 0x10, 0, 0] @ replicate 58 0 @ [0xB1, 0x19]"
    by (simp add: txBuf_normal len_def fb Checksum_frames(1))
  also have "\<dots> = [0x69, 0x10] @ replicate 60 0 @ [0xB1, 0x19]"
    by (simp add: eval_nat_numeral)
  finally show ?thesis .
qed

subsection \<open>Send and receive\<close>

text \<open>
  C1.  For every command and every payload of at most 58 bytes, the frame that Transfer
  builds passes the read loop's checks (64 bytes, sync byte, CRC), and the message the
  read loop publishes has the same command, the same payload bytes and the same payload
  length (and status 0).
\<close>

theorem send_read_roundtrip:
  assumes "len p \<le> MaxPayloadLen"
  shows "serialReaderThread (txBuf c p) False =
           Publish \<lparr>cmd = c, err = 0, payload = Some (elems p)\<rparr>
         \<and> len (Some (elems p)) = len p"
proof -
  let ?f = "txBuf c p"
  have le: "len p \<le> 58" using assms by (simp add: MaxPayloadLen_58)
  have L: "length ?f = 64" using le by (rule txBuf_parts)
  have t: "take 62 ?f = frame_body c p" using le by (rule txBuf_parts)
  have d: "LittleEndian_Uint16 (drop 62 ?f) = Checksum (frame_body c p)"
    using txBuf_parts(3) [OF le, of c] by (simp only: LittleEndian_Uint16_bytes)
  have h: "?f ! 0 = sync" "?f ! Suc 0 = c" "?f ! 2 = 0" "?f ! 3 = of_nat (len p)"
    using nth_txBuf_body [OF le, of 0 c] nth_txBuf_body [OF le, of 1 c]
      nth_txBuf_body [OF le, of 2 c] nth_txBuf_body [OF le, of 3 c]
    by (simp_all add: frame_body_header)
  have pl: "take (len p) (drop 4 ?f) = elems p"
    using le by (rule txBuf_payload)
  have hi: "unat ((4 :: byte) + of_nat (len p)) = 4 + len p"
    using le by (rule unat_hi)
  have "serialReaderThread ?f False = Publish \<lparr>cmd = c, err = 0, payload = Some (elems p)\<rparr>"
    unfolding serialReaderThread_def Let_def packetSize_def idxSync_def idxCmd_def idxErr_def
      idxPayload_def
    using le by (simp add: L t d h hi sync_def pl)
  moreover have "len (Some (elems p)) = len p"
    by (cases p) (simp_all add: len_def elems_def)
  ultimately show ?thesis by simp
qed

theorem send_read_roundtrip_witness:
  "len (Some [1, 2, 3]) \<le> MaxPayloadLen \<and>
   serialReaderThread (txBuf 0x61 (Some [1, 2, 3])) False =
     Publish \<lparr>cmd = 0x61, err = 0, payload = Some [1, 2, 3]\<rparr>"
  using send_read_roundtrip [of "Some [1, 2, 3]" "0x61"]
  by (simp add: len_def elems_def MaxPayloadLen_58)

text \<open>
  C2.  For every payload of at most 58 bytes the frame Transfer builds has 64 bytes:
  byte 0 is 0x69, byte 1 the command, byte 2 is 0, byte 3 the payload length, the payload
  starts at byte 4, the bytes after it up to byte 61 are 0, and bytes 62 and 63 are the
  low and the high byte of the CRC-16/CCITT-FALSE of bytes 0 to 61 (little-endian).  For
  command 0x10 with an empty (nil or zero-length) payload, bytes 4 to 61 are all 0, and
  the frame for the nil payload ends in 0xB1, 0x19 (CRC 0x19B1).
\<close>

theorem Transfer_frame_layout:
  assumes "len p \<le> MaxPayloadLen"
  shows "length (txBuf c p) = 64
       \<and> txBuf c p ! 0 = 0x69
       \<and> txBuf c p ! 1 = c
       \<and> txBuf c p ! 2 = 0
       \<and> unat (txBuf c p ! 3) = len p
       \<and> take (len p) (drop 4 (txBuf c p)) = elems p
       \<and> (\<forall>i. 4 + len p \<le> i \<and> i < 62 \<longrightarrow> txBuf c p ! i = 0)
       \<and> txBuf c p ! 62 = ucast (Checksum (take 62 (txBuf c p)) AND 0xff)
       \<and> txBuf c p ! 63 = ucast (drop_bit 8 (Checksum (take 62 (txBuf c p))))
       \<and> LittleEndian_Uint16 (drop 62 (txBuf c p)) = Checksum (take 62 (txBuf c p))
       \<and> take 58 (drop 4 (txBuf 0x10 None)) = replicate 58 0
       \<and> take 58 (drop 4 (txBuf 0x10 (Some []))) = replicate 58 0
       \<and> txBuf 0x10 None = [0x69, 0x10] @ replicate 60 0 @ [0xB1, 0x19]"
proof -
  let ?f = "txBuf c p"
  have le: "len p \<le> 58" using assms by (simp add: MaxPayloadLen_58)
  have L: "length ?f = 64" using le by (rule txBuf_parts)
  have t: "take 62 ?f = frame_body c p" using le by (rule txBuf_parts)
  have d: "drop 62 ?f = [ucast (Checksum (frame_body c p) AND 0xff),
                         ucast (drop_bit 8 (Checksum (frame_body c p)))]"
    using le by (rule txBuf_parts)
  have h: "?f ! 0 = 0x69" "?f ! 1 = c" "?f ! 2 = 0" "?f ! 3 = of_nat (len p)"
    using nth_txBuf_body [OF le, of 0 c] nth_txBuf_body [OF le, of 1 c]
      nth_txBuf_body [OF le, of 2 c] nth_txBuf_body [OF le, of 3 c]
    by (simp_all add: frame_body_header sync_def)
  have h3: "unat (?f ! 3) = len p"
    using le by (simp add: h unat_len_byte)
  have pl: "take (len p) (drop 4 ?f) = elems p"
    using le by (rule txBuf_payload)
  have pad: "\<forall>i. 4 + len p \<le> i \<and> i < 62 \<longrightarrow> ?f ! i = 0"
    using le by (simp add: nth_txBuf_body nth_frame_body_pad)
  have c62: "?f ! 62 = ucast (Checksum (take 62 ?f) AND 0xff)"
  proof -
    have "?f ! 62 = drop 62 ?f ! 0" using L by simp
    then show ?thesis by (simp add: d t)
  qed
  have c63: "?f ! 63 = ucast (drop_bit 8 (Checksum (take 62 ?f)))"
  proof -
    have "?f ! 63 = drop 62 ?f ! 1" using L by simp
    then show ?thesis by (simp add: d t)
  qed
  have e: "LittleEndian_Uint16 (drop 62 ?f) = Checksum (take 62 ?f)"
    by (simp only: d t LittleEndian_Uint16_bytes)
  have e1: "take 58 (drop 4 (txBuf 0x10 None)) = replicate 58 0"
    by (simp add: txBuf_normal len_def frame_body_def elems_def)
  have e2: "take 58 (drop 4 (txBuf 0x10 (Some []))) = replicate 58 0"
    by (simp add: txBuf_normal len_def frame_body_def elems_def)
  show ?thesis
    using L h(1) h(2) h(3) h3 pl pad c62 c63 e e1 e2 txBuf_0x10 by blast
qed

theorem Transfer_frame_layout_witness:
  "len (Some [7, 8]) \<le> MaxPayloadLen
   \<and> take 6 (txBuf 0x30 (Some [7, 8])) = [0x69, 0x30, 0, 2, 7, 8]
   \<and> length (txBuf 0x30 (Some [7, 8])) = 64"
  using Transfer_frame_layout [of "Some [7, 8]" "0x30"]
  by (simp add: len_def txBuf_normal frame_body_def elems_def sync_def MaxPayloadLen_58)

section \<open>The read loop and the length byte\<close>

lemma reader_valid_frame:
  assumes "length b = 62" "b ! 0 = sync"
  shows "serialReaderThread (with_crc b) False =
     (if unat (4 + b ! 3) < 4 \<or> 64 < unat (4 + b ! 3) then PanicSliceBounds
      else Publish \<lparr>cmd = b ! 1, err = b ! 2,
             payload = Some (take (unat (4 + b ! 3) - 4) (drop 4 (with_crc b)))\<rparr>)"
proof -
  let ?f = "with_crc b"
  have L: "length ?f = 64" using assms by (simp add: with_crc_def)
  have t: "take 62 ?f = b" using assms by (simp add: with_crc_def)
  have d: "LittleEndian_Uint16 (drop 62 ?f) = Checksum b"
    using assms by (simp add: with_crc_def LittleEndian_Uint16_bytes)
  have n: "?f ! 0 = b ! 0" "?f ! Suc 0 = b ! Suc 0" "?f ! 2 = b ! 2" "?f ! 3 = b ! 3"
    using assms by (simp_all add: with_crc_def nth_append)
  show ?thesis
    unfolding serialReaderThread_def Let_def packetSize_def idxSync_def idxCmd_def idxErr_def
      idxPayload_def
    using assms by (simp add: L t d n)
qed

lemma with_crc_frames:
  "with_crc (0x69 # 0x61 # 0 # 61 # replicate 58 0) =
     0x69 # 0x61 # 0 # 61 # replicate 58 0 @ [0xD6, 0x75]"
  "with_crc (0x69 # 0x61 # 0 # 255 # replicate 58 0) =
     0x69 # 0x61 # 0 # 255 # replicate 58 0 @ [0x37, 0x18]"
  "with_crc (0x69 # 0x61 # 0 # 59 # replicate 58 0) =
     0x69 # 0x61 # 0 # 59 # replicate 58 0 @ [0x71, 0x9A]"
  by (simp_all add: with_crc_def Checksum_frames)

text \<open>
  C9.  The read loop checks the number of bytes, the sync byte and the CRC, and not the
  length byte.  A frame of 64 bytes with the sync byte, a correct CRC and length byte 61
  (or 255, where the upper bound 4 + 255 wraps to 3) makes the slice expression panic;
  with length byte 59 a message with a payload of 59 bytes is published, one more than
  the 58 the send path allows, its last byte being the low byte of the CRC.
\<close>

theorem reader_length_unchecked:
  "serialReaderThread (0x69 # 0x61 # 0 # 61 # replicate 58 0 @ [0xD6, 0x75]) False
     = PanicSliceBounds
   \<and> serialReaderThread (0x69 # 0x61 # 0 # 255 # replicate 58 0 @ [0x37, 0x18]) False
     = PanicSliceBounds
   \<and> serialReaderThread (0x69 # 0x61 # 0 # 59 # replicate 58 0 @ [0x71, 0x9A]) False
     = Publish \<lparr>cmd = 0x61, err = 0, payload = Some (replicate 58 0 @ [0x71])\<rparr>
   \<and> len (Some (replicate 58 (0::byte) @ [0x71])) = 59"
proof -
  have a: "serialReaderThread (with_crc (0x69 # 0x61 # 0 # 61 # replicate 58 0)) False
             = PanicSliceBounds"
    by (simp add: reader_valid_frame sync_def)
  have b: "serialReaderThread (with_crc (0x69 # 0x61 # 0 # 255 # replicate 58 0)) False
             = PanicSliceBounds"
    by (simp add: reader_valid_frame sync_def)
  have c: "serialReaderThread (with_crc (0x69 # 0x61 # 0 # 59 # replicate 58 0)) False =
       Publish \<lparr>cmd = 0x61, err = 0, payload = Some (replicate 58 0 @ [0x71])\<rparr>"
    by (simp add: reader_valid_frame sync_def) (simp add: with_crc_frames(3))
  have d: "len (Some (replicate 58 (0::byte) @ [0x71])) = 59"
    by (simp add: len_def)
  from a b c d show ?thesis by (simp only: with_crc_frames)
qed

section \<open>Properties of the dispatcher\<close>

lemma callback_loop_calls:
  "fst (callback_loop cbs msg a) =
     map (\<lambda>cb. (cb, err msg, payload msg)) (filter (\<lambda>cb. cmd_cb cb = cmd msg) cbs)"
  by (induction cbs arbitrary: a) (auto simp add: split_def)

lemma callback_loop_flag:
  "snd (callback_loop cbs msg a) = (a \<and> filter (\<lambda>cb. cmd_cb cb = cmd msg) cbs = [])"
  by (induction cbs arbitrary: a) (auto simp add: split_def)

lemma receive_Frame:
  assumes "pc st = AtSelect"
  shows "receive st (Frame msg) =
     Some (st\<lparr>invoked := invoked st @
                 map (\<lambda>cb. (cb, err msg, payload msg))
                   (filter (\<lambda>cb. cmd_cb cb = cmd msg) (callbacks st)),
               pc := (if filter (\<lambda>cb. cmd_cb cb = cmd msg) (callbacks st) = []
                      then AtSend msg else AtSelect)\<rparr>)"
  using assms callback_loop_calls [of "callbacks st" msg True]
    callback_loop_flag [of "callbacks st" msg True]
  by (simp add: receive_def split_def)

lemma receive_AtSend:
  assumes "pc st = AtSend m"
  shows "receive st (Frame f) = None" "receive st (Register cb) = None"
    "receive st Taken = Some (st\<lparr>pc := AtSelect\<rparr>)"
  using assms by (simp_all add: receive_def)

lemma await_answer_AtSend:
  "pc st = AtSend m \<Longrightarrow> await_answer st inbound = (Answer m, st\<lparr>pc := AtSelect\<rparr>, inbound)"
  by (cases inbound) simp_all

lemma await_answer_post:
  "await_answer st inbound = (Answer a, st', rest) \<Longrightarrow>
     pc st' = AtSelect \<and> callbacks st' = callbacks st"
proof (induction inbound arbitrary: st)
  case Nil
  then show ?case by (cases "pc st") auto
next
  case (Cons f fs)
  show ?case
  proof (cases "pc st")
    case AtSelect
    then obtain st1 where r: "receive st (Frame f) = Some st1" and cb: "callbacks st1 = callbacks st"
      by (simp add: receive_Frame)
    with Cons.prems AtSelect have "await_answer st1 fs = (Answer a, st', rest)" by simp
    with Cons.IH cb show ?thesis by simp
  next
    case (AtSend m)
    with Cons.prems show ?thesis by auto
  qed
qed

text \<open>
  C3, as the claim states it, fails: with no callback registered and no Transfer waiting,
  the dispatcher does not drop a frame.  It stands in the send on the answer channel with
  the frame, does not take the next frame, and the next Transfer receives the held frame.
\<close>

theorem unsolicited_frame_is_held:
  "receive \<lparr>callbacks = [], pc = AtSelect, invoked = []\<rparr>
     (Frame \<lparr>cmd = 0x30, err = 0, payload = Some []\<rparr>)
     = Some \<lparr>callbacks = [], pc = AtSend \<lparr>cmd = 0x30, err = 0, payload = Some []\<rparr>, invoked = []\<rparr>
   \<and> receive \<lparr>callbacks = [], pc = AtSend \<lparr>cmd = 0x30, err = 0, payload = Some []\<rparr>, invoked = []\<rparr>
       (Frame \<lparr>cmd = 0x81, err = 0, payload = Some [1, 2, 3, 4, 5, 6]\<rparr>) = None
   \<and> await_answer
       \<lparr>callbacks = [], pc = AtSend \<lparr>cmd = 0x30, err = 0, payload = Some []\<rparr>, invoked = []\<rparr> []
     = (Answer \<lparr>cmd = 0x30, err = 0, payload = Some []\<rparr>,
        \<lparr>callbacks = [], pc = AtSelect, invoked = []\<rparr>, [])"
  by (simp add: receive_def)

text \<open>
  C3, amended.  For every frame the dispatcher takes at its select: every registered
  callback whose command equals the frame's command is called, in order of registration,
  with the frame's status byte and payload; if at least one callback matched, the frame is
  not offered as a reply (a waiting Transfer goes on waiting); if none matched, the frame
  is offered on the answer channel: a waiting Transfer receives it, and with no Transfer
  waiting the dispatcher holds the frame, taking no further frame and no registration,
  until a later Transfer takes it.
\<close>

theorem receive_frame_dispatch:
  assumes "pc st = AtSelect"
  shows "\<exists>st'. receive st (Frame msg) = Some st'
       \<and> callbacks st' = callbacks st
       \<and> invoked st' = invoked st @
            map (\<lambda>cb. (cb, err msg, payload msg)) (filter (\<lambda>cb. cmd_cb cb = cmd msg) (callbacks st))
       \<and> ((\<exists>cb \<in> set (callbacks st). cmd_cb cb = cmd msg) \<longrightarrow>
             pc st' = AtSelect
           \<and> await_answer st (msg # inbound) = await_answer st' inbound)
       \<and> ((\<forall>cb \<in> set (callbacks st). cmd_cb cb \<noteq> cmd msg) \<longrightarrow>
             pc st' = AtSend msg
           \<and> await_answer st (msg # inbound) = (Answer msg, st'\<lparr>pc := AtSelect\<rparr>, inbound)
           \<and> receive st' (Frame next_msg) = None
           \<and> receive st' (Register cb') = None
           \<and> receive st' Taken = Some (st'\<lparr>pc := AtSelect\<rparr>)
           \<and> await_answer st' later = (Answer msg, st'\<lparr>pc := AtSelect\<rparr>, later))"
proof -
  define st' where "st' = st\<lparr>invoked := invoked st @
                 map (\<lambda>cb. (cb, err msg, payload msg))
                   (filter (\<lambda>cb. cmd_cb cb = cmd msg) (callbacks st)),
               pc := (if filter (\<lambda>cb. cmd_cb cb = cmd msg) (callbacks st) = []
                      then AtSend msg else AtSelect)\<rparr>"
  have r: "receive st (Frame msg) = Some st'"
    using assms by (simp add: receive_Frame st'_def)
  have cb: "callbacks st' = callbacks st" by (simp add: st'_def)
  have inv: "invoked st' = invoked st @
            map (\<lambda>cb. (cb, err msg, payload msg)) (filter (\<lambda>cb. cmd_cb cb = cmd msg) (callbacks st))"
    by (simp add: st'_def)
  have aw: "await_answer st (msg # inbound) = await_answer st' inbound"
    using assms r by simp
  have some: "(\<exists>cb \<in> set (callbacks st). cmd_cb cb = cmd msg) \<longrightarrow>
             pc st' = AtSelect \<and> await_answer st (msg # inbound) = await_answer st' inbound"
    using aw by (auto simp add: st'_def filter_empty_conv)
  have none: "(\<forall>cb \<in> set (callbacks st). cmd_cb cb \<noteq> cmd msg) \<longrightarrow>
             pc st' = AtSend msg
           \<and> await_answer st (msg # inbound) = (Answer msg, st'\<lparr>pc := AtSelect\<rparr>, inbound)
           \<and> receive st' (Frame next_msg) = None
           \<and> receive st' (Register cb') = None
           \<and> receive st' Taken = Some (st'\<lparr>pc := AtSelect\<rparr>)
           \<and> await_answer st' later = (Answer msg, st'\<lparr>pc := AtSelect\<rparr>, later)"
  proof
    assume "\<forall>cb \<in> set (callbacks st). cmd_cb cb \<noteq> cmd msg"
    then have p: "pc st' = AtSend msg" by (simp add: st'_def filter_empty_conv)
    show "pc st' = AtSend msg
           \<and> await_answer st (msg # inbound) = (Answer msg, st'\<lparr>pc := AtSelect\<rparr>, inbound)
           \<and> receive st' (Frame next_msg) = None
           \<and> receive st' (Register cb') = None
           \<and> receive st' Taken = Some (st'\<lparr>pc := AtSelect\<rparr>)
           \<and> await_answer st' later = (Answer msg, st'\<lparr>pc := AtSelect\<rparr>, later)"
      using p aw receive_AtSend [OF p] await_answer_AtSend [OF p] by simp
  qed
  from r cb inv some none show ?thesis by blast
qed

theorem receive_frame_dispatch_witness:
  "pc \<lparr>callbacks = [\<lparr>cmd_cb = 0x81, cbFunc = Some 7\<rparr>], pc = AtSelect, invoked = []\<rparr> = AtSelect
   \<and> receive \<lparr>callbacks = [\<lparr>cmd_cb = 0x81, cbFunc = Some 7\<rparr>], pc = AtSelect, invoked = []\<rparr>
         (Frame \<lparr>cmd = 0x81, err = 0, payload = Some [1, 2, 3, 4, 5, 6]\<rparr>)
       = Some \<lparr>callbacks = [\<lparr>cmd_cb = 0x81, cbFunc = Some 7\<rparr>], pc = AtSelect,
               invoked = [(\<lparr>cmd_cb = 0x81, cbFunc = Some 7\<rparr>, 0, Some [1, 2, 3, 4, 5, 6])]\<rparr>
   \<and> receive \<lparr>callbacks = [\<lparr>cmd_cb = 0x81, cbFunc = Some 7\<rparr>], pc = AtSelect, invoked = []\<rparr>
         (Frame \<lparr>cmd = 0x30, err = 2, payload = Some [9]\<rparr>)
       = Some \<lparr>callbacks = [\<lparr>cmd_cb = 0x81, cbFunc = Some 7\<rparr>],
               pc = AtSend \<lparr>cmd = 0x30, err = 2, payload = Some [9]\<rparr>, invoked = []\<rparr>"
proof -
  let ?cb = "\<lparr>cmd_cb = 0x81, cbFunc = Some 7\<rparr>"
  let ?st = "\<lparr>callbacks = [?cb], pc = AtSelect, invoked = []\<rparr>"
  let ?m1 = "\<lparr>cmd = 0x81, err = 0, payload = Some [1, 2, 3, 4, 5, 6]\<rparr>"
  let ?m2 = "\<lparr>cmd = 0x30, err = 2, payload = Some [9]\<rparr>"
  have p: "pc ?st = AtSelect" by simp
  obtain s1 where s1: "receive ?st (Frame ?m1) = Some s1" "callbacks s1 = [?cb]"
      "invoked s1 = [(?cb, 0, Some [1, 2, 3, 4, 5, 6])]" "pc s1 = AtSelect"
    using receive_frame_dispatch [OF p, where msg = ?m1 and inbound = "[]" and later = "[]"
        and next_msg = ?m1 and cb' = ?cb]
    by auto
  obtain s2 where s2: "receive ?st (Frame ?m2) = Some s2" "callbacks s2 = [?cb]"
      "invoked s2 = []" "pc s2 = AtSend ?m2"
    using receive_frame_dispatch [OF p, where msg = ?m2 and inbound = "[]" and later = "[]"
        and next_msg = ?m1 and cb' = ?cb]
    by auto
  have e1: "s1 = \<lparr>callbacks = [?cb], pc = AtSelect,
                  invoked = [(?cb, 0, Some [1, 2, 3, 4, 5, 6])]\<rparr>"
    using s1 by (cases s1) simp
  have e2: "s2 = \<lparr>callbacks = [?cb], pc = AtSend ?m2, invoked = []\<rparr>"
    using s2 by (cases s2) simp
  show ?thesis using p s1(1) s2(1) e1 e2 by simp
qed

section \<open>Properties of Transfer\<close>

lemma Transfer_writes_txBuf:
  "len p \<le> MaxPayloadLen \<Longrightarrow> written (Transfer st c p wr inbound) = [txBuf c p]"
  by (simp add: Transfer_def Let_def split: prod.splits select_outcome.splits)

lemma Transfer_too_long:
  "MaxPayloadLen < len p \<Longrightarrow>
     error (Transfer st c p wr inbound) = Some ErrSize \<and> written (Transfer st c p wr inbound) = []"
  by (simp add: Transfer_def)

lemma await_answer_unconsumed:
  assumes "pc st = AtSelect" and "\<forall>cb \<in> set (callbacks st). cmd_cb cb \<noteq> cmd b"
  shows "await_answer st (b # later) =
           (Answer b,
            st\<lparr>invoked := invoked st @
                  map (\<lambda>cb. (cb, err b, payload b))
                    (filter (\<lambda>cb. cmd_cb cb = cmd b) (callbacks st)),
               pc := AtSelect\<rparr>, later)"
proof -
  have e: "filter (\<lambda>cb. cmd_cb cb = cmd b) (callbacks st) = []"
    using assms(2) by (simp add: filter_empty_conv)
  show ?thesis
    using assms(1) by (simp add: receive_Frame e await_answer_AtSend)
qed

text \<open>
  C7, as the claim states it, fails in its last part.  The dispatcher holds a stale frame
  with command 0x31.  A Transfer for 0x10 receives it and returns ErrCmdMismatch at once,
  the dispatcher left at its select; the reply to its own request is still to come.  The
  next Transfer, for 0x30, whose reply arrives right after, receives that late 0x10 reply
  and returns ErrCmdMismatch, though alone, from the same dispatcher state, it returns
  its reply.
\<close>

theorem mismatch_reply_reaches_next_Transfer:
  "error (Transfer \<lparr>callbacks = [], pc = AtSend \<lparr>cmd = 0x31, err = 0, payload = Some []\<rparr>,
                    invoked = []\<rparr>
            0x10 None (64, False) [\<lparr>cmd = 0x10, err = 0, payload = Some [1, 2, 3]\<rparr>])
     = Some ErrCmdMismatch
   \<and> dispatcher (Transfer \<lparr>callbacks = [], pc = AtSend \<lparr>cmd = 0x31, err = 0, payload = Some []\<rparr>,
                    invoked = []\<rparr>
            0x10 None (64, False) [\<lparr>cmd = 0x10, err = 0, payload = Some [1, 2, 3]\<rparr>])
     = \<lparr>callbacks = [], pc = AtSelect, invoked = []\<rparr>
   \<and> unread (Transfer \<lparr>callbacks = [], pc = AtSend \<lparr>cmd = 0x31, err = 0, payload = Some []\<rparr>,
                    invoked = []\<rparr>
            0x10 None (64, False) [\<lparr>cmd = 0x10, err = 0, payload = Some [1, 2, 3]\<rparr>])
     = [\<lparr>cmd = 0x10, err = 0, payload = Some [1, 2, 3]\<rparr>]
   \<and> error (Transfer \<lparr>callbacks = [], pc = AtSelect, invoked = []\<rparr>
            0x30 (Some [111, 111, 111, 111, 1, 16]) (64, False)
            ([\<lparr>cmd = 0x10, err = 0, payload = Some [1, 2, 3]\<rparr>]
             @ [\<lparr>cmd = 0x30, err = 0, payload = Some [7]\<rparr>]))
     = Some ErrCmdMismatch
   \<and> error (Transfer \<lparr>callbacks = [], pc = AtSelect, invoked = []\<rparr>
            0x30 (Some [111, 111, 111, 111, 1, 16]) (64, False)
            [\<lparr>cmd = 0x30, err = 0, payload = Some [7]\<rparr>])
     = None
   \<and> reply (Transfer \<lparr>callbacks = [], pc = AtSelect, invoked = []\<rparr>
            0x30 (Some [111, 111, 111, 111, 1, 16]) (64, False)
            [\<lparr>cmd = 0x30, err = 0, payload = Some [7]\<rparr>])
     = Some [7]"
  by (simp add: Transfer_def txBuf_parts(1) len_def MaxPayloadLen_58 receive_def)

text \<open>
  C7, amended.  When the write succeeded and the reply surfaced to Transfer has a command
  other than the request's, Transfer returns status 0, a nil payload and ErrCmdMismatch;
  when the commands are equal it returns the reply's status byte and payload and no
  error.  In both cases it has taken that one frame and leaves the dispatcher at its
  select with the callbacks it had.  The next Transfer is then answered by the frame
  that arrives next (the first one left unread, if any), unless a callback takes it: with
  that frame's status and payload when it has the next request's command, with
  ErrCmdMismatch when it has not, as for the late reply to the mismatched request.
\<close>

theorem Transfer_reply_command:
  assumes "len p \<le> MaxPayloadLen"
    and "await_answer st inbound = (Answer a, st', rest)"
  shows "(cmd a \<noteq> c \<longrightarrow>
            status (Transfer st c p (64, False) inbound) = 0
          \<and> reply (Transfer st c p (64, False) inbound) = None
          \<and> error (Transfer st c p (64, False) inbound) = Some ErrCmdMismatch)
       \<and> (cmd a = c \<longrightarrow>
            status (Transfer st c p (64, False) inbound) = err a
          \<and> reply (Transfer st c p (64, False) inbound) = payload a
          \<and> error (Transfer st c p (64, False) inbound) = None)
       \<and> dispatcher (Transfer st c p (64, False) inbound) = st'
       \<and> unread (Transfer st c p (64, False) inbound) = rest
       \<and> pc st' = AtSelect
       \<and> callbacks st' = callbacks st
       \<and> (len p2 \<le> MaxPayloadLen \<and> rest @ inbound2 = b # later
            \<and> (\<forall>cb \<in> set (callbacks st). cmd_cb cb \<noteq> cmd b) \<longrightarrow>
            status (Transfer st' c2 p2 (64, False) (rest @ inbound2)) = (if cmd b = c2 then err b else 0)
          \<and> reply (Transfer st' c2 p2 (64, False) (rest @ inbound2))
              = (if cmd b = c2 then payload b else None)
          \<and> error (Transfer st' c2 p2 (64, False) (rest @ inbound2))
              = (if cmd b = c2 then None else Some ErrCmdMismatch))"
proof -
  have le: "len p \<le> 58" using assms(1) by (simp add: MaxPayloadLen_58)
  have L: "length (txBuf c p) = 64" using le by (rule txBuf_parts)
  have post: "pc st' = AtSelect \<and> callbacks st' = callbacks st"
    using assms(2) by (rule await_answer_post)
  have first: "(cmd a \<noteq> c \<longrightarrow>
            status (Transfer st c p (64, False) inbound) = 0
          \<and> reply (Transfer st c p (64, False) inbound) = None
          \<and> error (Transfer st c p (64, False) inbound) = Some ErrCmdMismatch)
       \<and> (cmd a = c \<longrightarrow>
            status (Transfer st c p (64, False) inbound) = err a
          \<and> reply (Transfer st c p (64, False) inbound) = payload a
          \<and> error (Transfer st c p (64, False) inbound) = None)
       \<and> dispatcher (Transfer st c p (64, False) inbound) = st'
       \<and> unread (Transfer st c p (64, False) inbound) = rest"
    using assms by (simp add: Transfer_def L Let_def)
  have nxt: "len p2 \<le> MaxPayloadLen \<and> rest @ inbound2 = b # later
            \<and> (\<forall>cb \<in> set (callbacks st). cmd_cb cb \<noteq> cmd b) \<longrightarrow>
            status (Transfer st' c2 p2 (64, False) (rest @ inbound2)) = (if cmd b = c2 then err b else 0)
          \<and> reply (Transfer st' c2 p2 (64, False) (rest @ inbound2))
              = (if cmd b = c2 then payload b else None)
          \<and> error (Transfer st' c2 p2 (64, False) (rest @ inbound2))
              = (if cmd b = c2 then None else Some ErrCmdMismatch)"
  proof
    assume h: "len p2 \<le> MaxPayloadLen \<and> rest @ inbound2 = b # later
            \<and> (\<forall>cb \<in> set (callbacks st). cmd_cb cb \<noteq> cmd b)"
    then have le2: "len p2 \<le> 58" by (simp add: MaxPayloadLen_58)
    have L2: "length (txBuf c2 p2) = 64" using le2 by (rule txBuf_parts)
    have nocb: "\<forall>cb \<in> set (callbacks st'). cmd_cb cb \<noteq> cmd b" using h post by simp
    have aw: "await_answer st' (b # later) =
           (Answer b,
            st'\<lparr>invoked := invoked st' @
                  map (\<lambda>cb. (cb, err b, payload b))
                    (filter (\<lambda>cb. cmd_cb cb = cmd b) (callbacks st')),
               pc := AtSelect\<rparr>, later)"
      using post nocb by (intro await_answer_unconsumed) simp_all
    show "status (Transfer st' c2 p2 (64, False) (rest @ inbound2)) = (if cmd b = c2 then err b else 0)
          \<and> reply (Transfer st' c2 p2 (64, False) (rest @ inbound2))
              = (if cmd b = c2 then payload b else None)
          \<and> error (Transfer st' c2 p2 (64, False) (rest @ inbound2))
              = (if cmd b = c2 then None else Some ErrCmdMismatch)"
      using h by (simp add: Transfer_def L2 Let_def aw del: await_answer.simps)
  qed
  from first post nxt show ?thesis by (elim conjE, intro conjI) assumption+
qed

theorem Transfer_reply_command_witness:
  "len (Some [1]) \<le> MaxPayloadLen
   \<and> await_answer \<lparr>callbacks = [], pc = AtSelect, invoked = []\<rparr>
         [\<lparr>cmd = 0x10, err = 0, payload = Some [1, 2, 3]\<rparr>]
       = (Answer \<lparr>cmd = 0x10, err = 0, payload = Some [1, 2, 3]\<rparr>,
          \<lparr>callbacks = [], pc = AtSelect, invoked = []\<rparr>, [])
   \<and> error (Transfer \<lparr>callbacks = [], pc = AtSelect, invoked = []\<rparr> 0x30 (Some [1]) (64, False)
         [\<lparr>cmd = 0x10, err = 0, payload = Some [1, 2, 3]\<rparr>]) = Some ErrCmdMismatch
   \<and> dispatcher (Transfer \<lparr>callbacks = [], pc = AtSelect, invoked = []\<rparr> 0x30 (Some [1])
         (64, False) [\<lparr>cmd = 0x10, err = 0, payload = Some [1, 2, 3]\<rparr>])
       = \<lparr>callbacks = [], pc = AtSelect, invoked = []\<rparr>
   \<and> unread (Transfer \<lparr>callbacks = [], pc = AtSelect, invoked = []\<rparr> 0x30 (Some [1])
         (64, False) [\<lparr>cmd = 0x10, err = 0, payload = Some [1, 2, 3]\<rparr>]) = []
   \<and> reply (Transfer \<lparr>callbacks = [], pc = AtSelect, invoked = []\<rparr>
         0x10 None (64, False) [\<lparr>cmd = 0x10, err = 0, payload = Some [4, 5, 6]\<rparr>])
       = Some [4, 5, 6]"
proof -
  let ?st = "\<lparr>callbacks = [], pc = AtSelect, invoked = []\<rparr>"
  let ?m = "\<lparr>cmd = 0x10, err = 0, payload = Some [1, 2, 3]\<rparr>"
  let ?m' = "\<lparr>cmd = 0x10, err = 0, payload = Some [4, 5, 6]\<rparr>"
  have l: "len (Some [1]) \<le> MaxPayloadLen" by (simp add: len_def MaxPayloadLen_58)
  have a: "await_answer ?st [?m] = (Answer ?m, ?st, [])"
    by (simp add: receive_def)
  show ?thesis
    using l a
      Transfer_reply_command [OF l a, where c = "0x30" and ?c2.0 = "0x10" and ?p2.0 = None
        and b = ?m' and later = "[]" and ?inbound2.0 = "[?m']"]
    by (simp add: len_def)
qed

section \<open>Properties of esbbridge\<close>

lemma not_connected_Transfer:
  "\<not> connected st \<Longrightarrow> esbbridge_Transfer st usb a pl = (Inl NotConnected, [])"
  by (simp add: esbbridge_Transfer_def)

lemma not_connected_GetFwVersion:
  "\<not> connected st \<Longrightarrow> GetFwVersion st usb = (Inl NotConnected, [])"
  by (simp add: GetFwVersion_def)

lemma before_Open:
  "esbbridge_Transfer initial_state usb a pl = (Inl NotConnected, [])"
  "GetFwVersion initial_state usb = (Inl NotConnected, [])"
  by (simp_all add: esbbridge_Transfer_def GetFwVersion_def initial_state_def)

lemma failed_Open:
  "esbbridge_Transfer (snd (esbbridge_Open initial_state True e)) usb a pl = (Inl NotConnected, [])"
  "GetFwVersion (snd (esbbridge_Open initial_state True e)) usb = (Inl NotConnected, [])"
  by (simp_all add: esbbridge_Transfer_def GetFwVersion_def esbbridge_Open_def initial_state_def)

lemma Close_connected: "connected (esbbridge_Close st) = connected st"
  by (simp add: esbbridge_Close_def)

text \<open>
  C4.  Before Open, and after an Open that failed, the transaction functions fail with
  the not-connected error (\<open>before_Open\<close>, \<open>failed_Open\<close>).  After a successful Open
  and Close they do not: Close closes the port and leaves
  \<open>connected\<close> set, so Transfer and GetFwVersion pass the check, call the transport,
  and return what it returns, here the write error of the closed port.
\<close>

theorem Close_leaves_connected:
  "connected (esbbridge_Close (snd (esbbridge_Open initial_state False None)))
   \<and> port (esbbridge_Close (snd (esbbridge_Open initial_state False None))) = PortClosed
   \<and> esbbridge_Transfer (esbbridge_Close (snd (esbbridge_Open initial_state False None)))
        (\<lambda>m. (\<lparr>Cmd = 0, Err = 0, Payload = None\<rparr>, Some ErrWrite))
        [111, 111, 111, 111, 1] (Some [0x10])
      = (Inl (UsbErr ErrWrite),
         [\<lparr>Cmd = 0x30, Err = 0, Payload = Some [111, 111, 111, 111, 1, 0x10]\<rparr>])
   \<and> GetFwVersion (esbbridge_Close (snd (esbbridge_Open initial_state False None)))
        (\<lambda>m. (\<lparr>Cmd = 0, Err = 0, Payload = None\<rparr>, Some ErrWrite))
      = (Inl (UsbErr ErrWrite), [\<lparr>Cmd = 0x10, Err = 0, Payload = None\<rparr>])"
  by (simp add: esbbridge_Close_def esbbridge_Open_def initial_state_def usbprotocol_Close_def
      esbbridge_Transfer_def GetFwVersion_def len_def elems_def MaxPayloadSize_def
      append_slice_def UsbCmdTransfer_def UsbCmdVersion_def)

lemma request_payload:
  "1 \<le> len pl \<Longrightarrow> append_slice (append_slice None a) (elems pl) = Some (a @ elems pl)"
  by (cases pl) (auto simp add: append_slice_def len_def elems_def)

text \<open>
  C8.  Transfer of esbbridge returns an error and passes no message to the transport
  when the payload is nil, empty or longer than 32 bytes; on an open connection the error
  is the one for an empty (nil), too short or too long payload.  For a payload of 1 to 32
  bytes on an open connection, the one message passed to the transport has command 0x30
  and as payload the target address followed by the application payload.
\<close>

theorem Transfer_payload_bounds:
  "((pl = None \<or> len pl = 0 \<or> 32 < len pl) \<longrightarrow>
       isl (fst (esbbridge_Transfer st usb a pl)) \<and> snd (esbbridge_Transfer st usb a pl) = [])
   \<and> (connected st \<longrightarrow>
         (pl = None \<longrightarrow> esbbridge_Transfer st usb a pl = (Inl PayloadEmpty, []))
       \<and> (pl \<noteq> None \<and> len pl = 0 \<longrightarrow>
            esbbridge_Transfer st usb a pl = (Inl PayloadTooShort, []))
       \<and> (32 < len pl \<longrightarrow> esbbridge_Transfer st usb a pl = (Inl PayloadTooLong, []))
       \<and> (1 \<le> len pl \<and> len pl \<le> 32 \<longrightarrow>
            snd (esbbridge_Transfer st usb a pl) =
              [\<lparr>Cmd = 0x30, Err = 0, Payload = Some (a @ elems pl)\<rparr>]))"
proof -
  have bad: "(pl = None \<or> len pl = 0 \<or> 32 < len pl) \<longrightarrow>
       isl (fst (esbbridge_Transfer st usb a pl)) \<and> snd (esbbridge_Transfer st usb a pl) = []"
    by (cases pl) (auto simp add: esbbridge_Transfer_def MaxPayloadSize_def len_def)
  have nil: "connected st \<longrightarrow> pl = None \<longrightarrow>
      esbbridge_Transfer st usb a pl = (Inl PayloadEmpty, [])"
    by (simp add: esbbridge_Transfer_def)
  have short: "connected st \<longrightarrow> pl \<noteq> None \<and> len pl = 0 \<longrightarrow>
      esbbridge_Transfer st usb a pl = (Inl PayloadTooShort, [])"
    by (simp add: esbbridge_Transfer_def MaxPayloadSize_def)
  have long: "connected st \<longrightarrow> 32 < len pl \<longrightarrow>
      esbbridge_Transfer st usb a pl = (Inl PayloadTooLong, [])"
    by (auto simp add: esbbridge_Transfer_def MaxPayloadSize_def len_def)
  have ok: "connected st \<longrightarrow> 1 \<le> len pl \<and> len pl \<le> 32 \<longrightarrow>
      snd (esbbridge_Transfer st usb a pl) =
        [\<lparr>Cmd = 0x30, Err = 0, Payload = Some (a @ elems pl)\<rparr>]"
  proof (intro impI)
    assume c: "connected st" and b: "1 \<le> len pl \<and> len pl \<le> 32"
    then have ne: "pl \<noteq> None" by (cases pl) (simp_all add: len_def)
    from b have rp: "append_slice (append_slice None a) (elems pl) = Some (a @ elems pl)"
      by (simp add: request_payload)
    show "snd (esbbridge_Transfer st usb a pl) =
        [\<lparr>Cmd = 0x30, Err = 0, Payload = Some (a @ elems pl)\<rparr>]"
      using c b ne
      by (simp add: esbbridge_Transfer_def MaxPayloadSize_def rp UsbCmdTransfer_def Let_def
          split: prod.splits option.splits)
  qed
  from bad nil short long ok show ?thesis by blast
qed

theorem Transfer_payload_bounds_witness:
  "connected \<lparr>connected = True, listeners = [], port = PortOpen\<rparr>
   \<and> esbbridge_Transfer \<lparr>connected = True, listeners = [], port = PortOpen\<rparr>
        (\<lambda>m. (\<lparr>Cmd = 0x30, Err = 0, Payload = Some [9]\<rparr>, None)) [111, 111, 111, 111, 1] None
      = (Inl PayloadEmpty, [])
   \<and> snd (esbbridge_Transfer \<lparr>connected = True, listeners = [], port = PortOpen\<rparr>
        (\<lambda>m. (\<lparr>Cmd = 0x30, Err = 0, Payload = Some [9]\<rparr>, None)) [111, 111, 111, 111, 1]
        (Some [0x10]))
      = [\<lparr>Cmd = 0x30, Err = 0, Payload = Some [111, 111, 111, 111, 1, 0x10]\<rparr>]"
  using Transfer_payload_bounds
     [where st = "\<lparr>connected = True, listeners = [], port = PortOpen\<rparr>" and pl = None
        and usb = "\<lambda>m. (\<lparr>Cmd = 0x30, Err = 0, Payload = Some [9]\<rparr>, None)"
        and a = "[111, 111, 111, 111, 1]"]
    Transfer_payload_bounds
     [where st = "\<lparr>connected = True, listeners = [], port = PortOpen\<rparr>" and pl = "Some [0x10]"
        and usb = "\<lambda>m. (\<lparr>Cmd = 0x30, Err = 0, Payload = Some [9]\<rparr>, None)"
        and a = "[111, 111, 111, 111, 1]"]
  by (simp add: len_def elems_def)

section \<open>Properties of the envelope router\<close>

lemma bytes_Compare_eq: "bytes_Compare xs ys = 0 \<longleftrightarrow> xs = ys"
  by (induction xs ys rule: bytes_Compare.induct) auto

lemma replicate5: "replicate 5 x = [x, x, x, x, x]"
  by (simp add: eval_nat_numeral)



















lemma rxCallbackThread_short:
  "len (Payload usbMsg) < 6 \<Longrightarrow> rxCallbackThread sk ls (usbMsg # rest) = []"
  by simp

text \<open>
  C5.  On a packet with fewer than 6 payload bytes rxCallbackThread returns: the goroutine
  ends, and a well-formed packet that arrives after it is delivered to no listener,
  though the same packet alone is delivered (all sinks taking what they are sent).
\<close>

theorem rxCallbackThread_returns_on_short_payload:
  "rxCallbackThread (\<lambda>ch. Drained)
     [\<lparr>sourceAddr = [0, 0, 0, 0, 0], cmd_l = 0xFF, channel = 1\<rparr>]
     [\<lparr>Cmd = 0x81, Err = 0, Payload = Some [1, 2, 3]\<rparr>,
      \<lparr>Cmd = 0x81, Err = 0, Payload = Some [1, 2, 3, 4, 5, 6, 7]\<rparr>] = []
   \<and> rxCallbackThread (\<lambda>ch. Drained)
     [\<lparr>sourceAddr = [0, 0, 0, 0, 0], cmd_l = 0xFF, channel = 1\<rparr>]
     [\<lparr>Cmd = 0x81, Err = 0, Payload = Some [1, 2, 3, 4, 5, 6, 7]\<rparr>]
     = [(1, \<lparr>address = Some [1, 2, 3, 4, 5], cmd_esb = 6, payload_esb = Some [7]\<rparr>)]"
  by (simp add: len_def elems_def bytes_Compare_eq replicate5 Let_def)

section \<open>Properties of concurrent callers\<close>

lemma Write_step:
  assumes "callers s i = Idle" "len p \<le> MaxPayloadLen"
  shows "Transfer_step s (Write i c p (64, False)) =
           Some (s\<lparr>wire := wire s @ [txBuf c p], callers := (callers s)(i := Pending c)\<rparr>)"
proof -
  have "len p \<le> 58" using assms(2) by (simp add: MaxPayloadLen_58)
  then have L: "length (txBuf c p) = 64" by (rule txBuf_parts)
  show ?thesis using assms by (simp add: Transfer_step_def L)
qed

lemma Receive_step:
  assumes "callers s i = Pending c" "pc (disp s) = AtSend m"
  shows "Transfer_step s (Receive i) =
           Some (s\<lparr>disp := (disp s)\<lparr>pc := AtSelect\<rparr>,
                   callers := (callers s)(i := Idle),
                   returned := returned s @
                     [if cmd m \<noteq> c then (i, 0, None, Some ErrCmdMismatch)
                      else (i, err m, payload m, None)]\<rparr>)"
  using assms by (simp add: Transfer_step_def)

lemma Receive_nothing_offered:
  "pc (disp s) = AtSelect \<Longrightarrow> Transfer_step s (Receive j) = None"
  by (simp add: Transfer_step_def split: caller_pc.splits)

lemma run_Writes:
  assumes "distinct js" "\<forall>i \<in> set js. callers s i = Idle" "len p \<le> MaxPayloadLen"
  shows "\<exists>s'. run s (map (\<lambda>i. Write i (c i) p (64, False)) js) = Some s'
           \<and> (\<forall>i \<in> set js. callers s' i = Pending (c i))
           \<and> (\<forall>j. j \<notin> set js \<longrightarrow> callers s' j = callers s j)
           \<and> wire s' = wire s @ map (\<lambda>i. txBuf (c i) p) js
           \<and> disp s' = disp s \<and> returned s' = returned s"
  using assms(1,2)
proof (induction js arbitrary: s)
  case Nil
  then show ?case by simp
next
  case (Cons i js)
  let ?s1 = "s\<lparr>wire := wire s @ [txBuf (c i) p], callers := (callers s)(i := Pending (c i))\<rparr>"
  have st: "Transfer_step s (Write i (c i) p (64, False)) = Some ?s1"
    using Cons.prems assms(3) by (simp add: Write_step)
  have d: "distinct js" and ni: "i \<notin> set js" using Cons.prems by simp_all
  have idle: "\<forall>j \<in> set js. callers ?s1 j = Idle" using Cons.prems ni by auto
  obtain s' where s': "run ?s1 (map (\<lambda>i. Write i (c i) p (64, False)) js) = Some s'"
      "\<forall>j \<in> set js. callers s' j = Pending (c j)"
      "\<forall>j. j \<notin> set js \<longrightarrow> callers s' j = callers ?s1 j"
      "wire s' = wire ?s1 @ map (\<lambda>i. txBuf (c i) p) js"
      "disp s' = disp ?s1" "returned s' = returned ?s1"
    using Cons.IH [OF d idle] by blast
  have r: "run s (map (\<lambda>i. Write i (c i) p (64, False)) (i # js)) = Some s'"
    using st s'(1) by simp
  have p: "\<forall>j \<in> set (i # js). callers s' j = Pending (c j)"
    using s'(2) s'(3) ni by simp
  have o: "\<forall>j. j \<notin> set (i # js) \<longrightarrow> callers s' j = callers s j"
    using s'(3) by simp
  have w: "wire s' = wire s @ map (\<lambda>i. txBuf (c i) p) (i # js)"
    using s'(4) by simp
  have e: "disp s' = disp s \<and> returned s' = returned s"
    using s'(5) s'(6) by simp
  from r p o w e show ?case by blast
qed

text \<open>
  One caller alone, stepping through the write, the arrival of a reply and the receive,
  returns what \<open>Transfer\<close> returns on that reply.
\<close>

lemma single_caller_as_Transfer:
  assumes "callers s i = Idle" "len p \<le> MaxPayloadLen" "pc (disp s) = AtSelect"
    and "\<forall>cb \<in> set (callbacks (disp s)). cmd_cb cb \<noteq> cmd m"
  shows "map_option returned (run s [Write i c p (64, False), Inbound m, Receive i]) =
           Some (returned s @
             [(i, status (Transfer (disp s) c p (64, False) [m]),
                  reply (Transfer (disp s) c p (64, False) [m]),
                  error (Transfer (disp s) c p (64, False) [m]))])"
proof -
  have "len p \<le> 58" using assms(2) by (simp add: MaxPayloadLen_58)
  then have L: "length (txBuf c p) = 64" by (rule txBuf_parts)
  have e: "filter (\<lambda>cb. cmd_cb cb = cmd m) (callbacks (disp s)) = []"
    using assms(4) by (simp add: filter_empty_conv)
  have r: "receive (disp s) (Frame m) =
      Some ((disp s)\<lparr>invoked := invoked (disp s), pc := AtSend m\<rparr>)"
    using assms(3) by (simp add: receive_Frame e)
  have aw: "await_answer (disp s) [m] =
      (Answer m, (disp s)\<lparr>invoked := invoked (disp s), pc := AtSelect\<rparr>, [])"
    using assms(3) r by simp
  show ?thesis
    using assms(1,2) r
    by (simp add: Transfer_step_def L Transfer_def aw del: await_answer.simps)
qed

text \<open>
  C10, as the claim states it, fails.  Two callers of Transfer, both with command 0x30
  (the command of every ESB transfer).  The second writes its frame while the first is
  waiting: both are pending at once.  The device answers the frames in the order they
  were written, payload 0xA1 for the first and 0xB2 for the second; when the select of
  caller 2 receives the first answer and the select of caller 1 the second, each caller
  returns the other's reply, without error.
\<close>

theorem concurrent_callers_cross:
  "map_option (\<lambda>s. (callers s 1, callers s 2))
     (run \<lparr>disp = \<lparr>callbacks = [], pc = AtSelect, invoked = []\<rparr>, callers = (\<lambda>i. Idle),
           wire = [], returned = []\<rparr>
        [Write 1 0x30 (Some [1, 1, 1, 1, 1, 7]) (64, False),
         Write 2 0x30 (Some [2, 2, 2, 2, 2, 8]) (64, False)])
     = Some (Pending 0x30, Pending 0x30)
   \<and> map_option wire
     (run \<lparr>disp = \<lparr>callbacks = [], pc = AtSelect, invoked = []\<rparr>, callers = (\<lambda>i. Idle),
           wire = [], returned = []\<rparr>
        [Write 1 0x30 (Some [1, 1, 1, 1, 1, 7]) (64, False),
         Write 2 0x30 (Some [2, 2, 2, 2, 2, 8]) (64, False)])
     = Some [txBuf 0x30 (Some [1, 1, 1, 1, 1, 7]), txBuf 0x30 (Some [2, 2, 2, 2, 2, 8])]
   \<and> map_option returned
     (run \<lparr>disp = \<lparr>callbacks = [], pc = AtSelect, invoked = []\<rparr>, callers = (\<lambda>i. Idle),
           wire = [], returned = []\<rparr>
        [Write 1 0x30 (Some [1, 1, 1, 1, 1, 7]) (64, False),
         Write 2 0x30 (Some [2, 2, 2, 2, 2, 8]) (64, False),
         Inbound \<lparr>cmd = 0x30, err = 0, payload = Some [0xA1]\<rparr>,
         Receive 2,
         Inbound \<lparr>cmd = 0x30, err = 0, payload = Some [0xB2]\<rparr>,
         Receive 1])
     = Some [(2, 0, Some [0xA1], None), (1, 0, Some [0xB2], None)]"
  by (simp add: Transfer_step_def txBuf_parts(1) len_def MaxPayloadLen_58 receive_def)

text \<open>
  C10, amended.  Concurrent callers of Transfer are not excluded from one another:
  Transfer takes no lock, and the request of every caller is written and becomes pending
  whether or not other transactions are pending, so any number of transactions can be
  pending at once, their frames on the wire in the order written.  Each frame the
  dispatcher forwards is received by one pending caller, any of them, and by no second
  one; that caller returns the frame's status and payload when the frame's command
  equals its own request's, and CommandMismatch otherwise.
\<close>

theorem Transfer_not_exclusive:
  "(distinct js \<and> (\<forall>i \<in> set js. callers s i = Idle) \<and> len p \<le> MaxPayloadLen \<longrightarrow>
      (\<exists>s'. run s (map (\<lambda>i. Write i (c i) p (64, False)) js) = Some s'
         \<and> (\<forall>i \<in> set js. callers s' i = Pending (c i))
         \<and> (\<forall>j. j \<notin> set js \<longrightarrow> callers s' j = callers s j)
         \<and> wire s' = wire s @ map (\<lambda>i. txBuf (c i) p) js
         \<and> disp s' = disp s \<and> returned s' = returned s))
   \<and> (callers t i = Pending d \<and> pc (disp t) = AtSend m \<longrightarrow>
      (\<exists>t'. Transfer_step t (Receive i) = Some t'
         \<and> returned t' = returned t @
              [if cmd m \<noteq> d then (i, 0, None, Some ErrCmdMismatch)
               else (i, err m, payload m, None)]
         \<and> callers t' i = Idle
         \<and> (\<forall>j. j \<noteq> i \<longrightarrow> callers t' j = callers t j)
         \<and> pc (disp t') = AtSelect
         \<and> (\<forall>j. Transfer_step t' (Receive j) = None)))"
proof -
  have A: "distinct js \<and> (\<forall>i \<in> set js. callers s i = Idle) \<and> len p \<le> MaxPayloadLen \<longrightarrow>
      (\<exists>s'. run s (map (\<lambda>i. Write i (c i) p (64, False)) js) = Some s'
         \<and> (\<forall>i \<in> set js. callers s' i = Pending (c i))
         \<and> (\<forall>j. j \<notin> set js \<longrightarrow> callers s' j = callers s j)
         \<and> wire s' = wire s @ map (\<lambda>i. txBuf (c i) p) js
         \<and> disp s' = disp s \<and> returned s' = returned s)"
    using run_Writes by blast
  have B: "callers t i = Pending d \<and> pc (disp t) = AtSend m \<longrightarrow>
      (\<exists>t'. Transfer_step t (Receive i) = Some t'
         \<and> returned t' = returned t @
              [if cmd m \<noteq> d then (i, 0, None, Some ErrCmdMismatch)
               else (i, err m, payload m, None)]
         \<and> callers t' i = Idle
         \<and> (\<forall>j. j \<noteq> i \<longrightarrow> callers t' j = callers t j)
         \<and> pc (disp t') = AtSelect
         \<and> (\<forall>j. Transfer_step t' (Receive j) = None))"
  proof
    assume h: "callers t i = Pending d \<and> pc (disp t) = AtSend m"
    let ?t' = "t\<lparr>disp := (disp t)\<lparr>pc := AtSelect\<rparr>,
                   callers := (callers t)(i := Idle),
                   returned := returned t @
                     [if cmd m \<noteq> d then (i, 0, None, Some ErrCmdMismatch)
                      else (i, err m, payload m, None)]\<rparr>"
    have 1: "Transfer_step t (Receive i) = Some ?t'" using h by (simp add: Receive_step)
    have 2: "pc (disp ?t') = AtSelect" by simp
    have 3: "\<forall>j. Transfer_step ?t' (Receive j) = None"
      using 2 by (simp add: Receive_nothing_offered)
    have 4: "returned ?t' = returned t @
              [if cmd m \<noteq> d then (i, 0, None, Some ErrCmdMismatch)
               else (i, err m, payload m, None)]" by simp
    have 5: "callers ?t' i = Idle \<and> (\<forall>j. j \<noteq> i \<longrightarrow> callers ?t' j = callers t j)" by simp
    from 1 2 3 4 5 show "\<exists>t'. Transfer_step t (Receive i) = Some t'
         \<and> returned t' = returned t @
              [if cmd m \<noteq> d then (i, 0, None, Some ErrCmdMismatch)
               else (i, err m, payload m, None)]
         \<and> callers t' i = Idle
         \<and> (\<forall>j. j \<noteq> i \<longrightarrow> callers t' j = callers t j)
         \<and> pc (disp t') = AtSelect
         \<and> (\<forall>j. Transfer_step t' (Receive j) = None)"
      by (intro exI [of _ ?t']) (elim conjE, intro conjI, assumption+)
  qed
  from A B show ?thesis by (rule conjI)
qed


theorem Transfer_not_exclusive_witness:
  "distinct [1, 2 :: nat] \<and> len (Some [9]) \<le> MaxPayloadLen
   \<and> map_option (\<lambda>s. (callers s 1, callers s 2))
       (run \<lparr>disp = \<lparr>callbacks = [], pc = AtSelect, invoked = []\<rparr>, callers = (\<lambda>i. Idle),
             wire = [], returned = []\<rparr>
          [Write 1 0x30 (Some [9]) (64, False), Write 2 0x10 (Some [9]) (64, False)])
       = Some (Pending 0x30, Pending 0x10)
   \<and> map_option returned
       (Transfer_step
          \<lparr>disp = \<lparr>callbacks = [], pc = AtSend \<lparr>cmd = 0x30, err = 0, payload = Some [7]\<rparr>,
                    invoked = []\<rparr>,
           callers = (\<lambda>i. Pending 0x30)(2 := Pending 0x10), wire = [], returned = []\<rparr>
          (Receive 2))
       = Some [(2, 0, None, Some ErrCmdMismatch)]"
proof -
  let ?s = "\<lparr>disp = \<lparr>callbacks = [], pc = AtSelect, invoked = []\<rparr>, callers = (\<lambda>i. Idle),
             wire = [], returned = []\<rparr>"
  let ?c = "\<lambda>i::nat. if i = 1 then (0x30 :: CommandID) else 0x10"
  let ?m = "\<lparr>cmd = 0x30, err = 0, payload = Some [7]\<rparr>"
  let ?t = "\<lparr>disp = \<lparr>callbacks = [], pc = AtSend ?m, invoked = []\<rparr>,
           callers = (\<lambda>i. Pending 0x30)(2 := Pending 0x10), wire = [], returned = []\<rparr>"
  have d: "distinct [1, 2 :: nat]" by simp
  have l: "len (Some [9]) \<le> MaxPayloadLen" by (simp add: len_def MaxPayloadLen_58)
  have idle: "\<forall>i \<in> set [1, 2 :: nat]. callers ?s i = Idle" by simp
  have pend: "callers ?t 2 = Pending 0x10 \<and> pc (disp ?t) = AtSend ?m" by simp
  note T = Transfer_not_exclusive [where js = "[1, 2]" and s = ?s and p = "Some [9]" and c = ?c
      and t = ?t and i = 2 and d = "0x10" and m = ?m]
  obtain s' where s': "run ?s (map (\<lambda>i. Write i (?c i) (Some [9]) (64, False)) [1, 2]) = Some s'"
      "\<forall>i \<in> set [1, 2 :: nat]. callers s' i = Pending (?c i)"
    using mp [OF conjunct1 [OF T] conjI [OF d conjI [OF idle l]]]
    by (elim exE conjE) (rule that; assumption)
  obtain t' where t': "Transfer_step ?t (Receive 2) = Some t'"
      "returned t' = returned ?t @
         [if cmd ?m \<noteq> 0x10 then (2, 0, None, Some ErrCmdMismatch)
          else (2, err ?m, payload ?m, None)]"
    using mp [OF conjunct2 [OF T] pend]
    by (elim exE conjE) (rule that; assumption)
  have r: "run ?s [Write 1 0x30 (Some [9]) (64, False), Write 2 0x10 (Some [9]) (64, False)]
             = Some s'"
    using s'(1) by simp
  have c12: "callers s' 1 = Pending 0x30" "callers s' 2 = Pending 0x10"
    using s'(2) by simp_all
  have ret: "returned t' = [(2, 0, None, Some ErrCmdMismatch)]"
    using t'(2) by simp
  show ?thesis
    using d l r c12 t'(1) ret by simp
qed

end
